theory Spec2Isabelle
  imports Main "HOL-Library.Word" "HOL-Library.Sublist"
begin

section \<open>QTFileTransfer.c: asynchronous transfer of a remote file into a local file\<close>

text \<open>
  The program keeps its state in eight global variables and talks to the Mac OS and
  QuickTime toolbox (File Manager, Memory Manager, Component Manager, data handlers).
  The embedding passes the globals around as a record, logs every toolbox call the code
  makes in the order it makes it, and takes the results of the toolbox calls as inputs.

  The program is built for 32-bit targets: \<open>long\<close>, \<open>Size\<close> and
  \<open>ComponentResult\<close> are 32-bit two's complement integers, \<open>OSErr\<close>
  is a 16-bit one. They are words here; order comparisons of the source are the signed
  ones (\<open><s\<close>), its additions and subtractions wrap around.
\<close>

subsection \<open>Types of the toolbox\<close>

type_synonym long = "32 word"
type_synonym OSErr = "16 word"
type_synonym ComponentResult = "32 word"

text \<open>Pointers, handles and component instances are addresses; address 0 is \<open>NULL\<close>.\<close>

type_synonym Ptr = nat
type_synonym Handle = nat
type_synonym ComponentInstance = nat
type_synonym FSSpecPtr = nat

abbreviation NULL :: nat where
  "NULL \<equiv> 0"

text \<open>
  A completion routine descriptor (\<open>DataHCompletionUPP\<close>) designates one of the two
  completion routines of this file; \<open>None\<close> is the \<open>NULL\<close> descriptor.
\<close>

datatype completion_proc = ReadDataCompletionProc | WriteDataCompletionProc

type_synonym DataHCompletionUPP = "completion_proc option"

text \<open>The 64-bit offset record \<open>wide\<close> of the toolbox.\<close>

record wide =
  hi :: "32 word"
  lo :: "32 word"

text \<open>Error codes of the toolbox headers that the source names.\<close>

definition noErr :: "'a::len word" where
  "noErr = 0"

definition fnfErr :: OSErr where
  "fnfErr = - 43"

definition badComponentType :: ComponentResult where
  "badComponentType = - 2005"

text \<open>
  The toolbox calls of the source, with the arguments the source passes. A call that only
  computes an argument of another call (\<open>strlen\<close>, \<open>GetDataHandler\<close>,
  \<open>MemError\<close>) is folded into that call.
\<close>

datatype toolbox_call =
    NewHandleClear long
  | BlockMove string Handle long
  | FSpDelete FSSpecPtr
  | FSpCreate FSSpecPtr
  | QTNewAlias FSSpecPtr
  | OpenComponent Handle
  | DataHSetDataRef ComponentInstance Handle
  | NewPtrClear long
  | DataHOpenForRead ComponentInstance
  | DataHGetFileSize ComponentInstance
  | DataHOpenForWrite ComponentInstance
  | NewDataHCompletionUPP completion_proc
  | DataHReadAsync ComponentInstance Ptr long wide DataHCompletionUPP long
  | DataHWrite ComponentInstance Ptr long long DataHCompletionUPP long
  | DataHCloseForRead ComponentInstance
  | DataHCloseForWrite ComponentInstance
  | CloseComponent ComponentInstance
  | DisposePtr Ptr
  | DisposeDataHCompletionUPP DataHCompletionUPP

subsection \<open>The global variables and the toolbox's side of the state\<close>

text \<open>
  The first eight fields are the globals of lines 91-98. \<open>calls\<close> is the log of the
  toolbox calls made so far, oldest first. \<open>outstanding\<close> holds the asynchronous
  requests handed to a data handler whose completion routine has not run yet, oldest first.
\<close>

record world =
  gDataBuffer :: Ptr
  gDataReader :: ComponentInstance
  gDataWriter :: ComponentInstance
  gReadDataHCompletionUPP :: DataHCompletionUPP
  gWriteDataHCompletionUPP :: DataHCompletionUPP
  gBytesToTransfer :: long
  gBytesTransferred :: long
  gDoneTransferring :: bool
  calls :: "toolbox_call list"
  outstanding :: "toolbox_call list"

text \<open>The values the globals are initialised with (lines 91-98), and nothing called yet.\<close>

definition initial_world :: world where
  "initial_world =
     \<lparr>gDataBuffer = NULL, gDataReader = NULL, gDataWriter = NULL,
      gReadDataHCompletionUPP = None, gWriteDataHCompletionUPP = None,
      gBytesToTransfer = 0, gBytesTransferred = 0, gDoneTransferring = False,
      calls = [], outstanding = []\<rparr>"

text \<open>A synchronous toolbox call is logged.\<close>

definition toolbox :: "toolbox_call \<Rightarrow> world \<Rightarrow> world" where
  "toolbox c s = calls_update (\<lambda>cs. cs @ [c]) s"

text \<open>
  An asynchronous request (\<open>DataHReadAsync\<close>, \<open>DataHWrite\<close> with a completion
  routine) is logged and stays outstanding until the data handler completes it.
\<close>

definition schedule :: "toolbox_call \<Rightarrow> world \<Rightarrow> world" where
  "schedule c s = outstanding_update (\<lambda>rs. rs @ [c]) (calls_update (\<lambda>cs. cs @ [c]) s)"

subsection \<open>The completion routines (lines 248-306)\<close>

text \<open>
  \<open>QTFileTrans_ReadDataCompletionProc\<close>, lines 248-259: schedule a write of
  \<open>theRefCon\<close> bytes at the current offset, tagged with \<open>theRefCon\<close>.
  \<open>theErr\<close> is unused.
\<close>

definition QTFileTrans_ReadDataCompletionProc :: "Ptr \<Rightarrow> long \<Rightarrow> OSErr \<Rightarrow> world \<Rightarrow> world" where
  "QTFileTrans_ReadDataCompletionProc theRequest theRefCon theErr s =
     schedule (DataHWrite (gDataWriter s) theRequest (gBytesTransferred s) theRefCon
                 (gWriteDataHCompletionUPP s) theRefCon) s"

text \<open>
  \<open>QTFileTrans_WriteDataCompletionProc\<close>, lines 271-306. \<open>kDataBufferSize\<close> is a
  macro of the header \<open>QTFileTransfer.h\<close>; it is the first parameter here.
\<close>

definition QTFileTrans_WriteDataCompletionProc ::
    "long \<Rightarrow> Ptr \<Rightarrow> long \<Rightarrow> OSErr \<Rightarrow> world \<Rightarrow> world" where
  "QTFileTrans_WriteDataCompletionProc kDataBufferSize theRequest theRefCon theErr s =
     (let s1 = s\<lparr>gBytesTransferred := gBytesTransferred s + theRefCon\<rparr> in
      if gBytesTransferred s1 <s gBytesToTransfer s1 then
        let myNumBytesToRead =
              (if kDataBufferSize <s gBytesToTransfer s1 - gBytesTransferred s1
               then kDataBufferSize
               else gBytesToTransfer s1 - gBytesTransferred s1);
            myWide = \<lparr>hi = 0, lo = gBytesTransferred s1\<rparr>
        in schedule (DataHReadAsync (gDataReader s1) theRequest myNumBytesToRead myWide
                       (gReadDataHCompletionUPP s1) myNumBytesToRead) s1
      else s1\<lparr>gDoneTransferring := True\<rparr>)"

subsection \<open>Teardown (lines 316-340)\<close>

definition QTFileTrans_CloseDownHandlers :: "world \<Rightarrow> world" where
  "QTFileTrans_CloseDownHandlers s =
     (let s1 = (if gDataReader s \<noteq> NULL
                then (toolbox (CloseComponent (gDataReader s))
                       (toolbox (DataHCloseForRead (gDataReader s)) s))\<lparr>gDataReader := NULL\<rparr>
                else s);
          s2 = (if gDataWriter s1 \<noteq> NULL
                then (toolbox (CloseComponent (gDataWriter s1))
                       (toolbox (DataHCloseForWrite (gDataWriter s1)) s1))\<lparr>gDataWriter := NULL\<rparr>
                else s1);
          s3 = (if gDataBuffer s2 \<noteq> NULL then toolbox (DisposePtr (gDataBuffer s2)) s2 else s2);
          s4 = (if gReadDataHCompletionUPP s3 \<noteq> None
                then toolbox (DisposeDataHCompletionUPP (gReadDataHCompletionUPP s3)) s3
                else s3)
      in if gWriteDataHCompletionUPP s4 \<noteq> None
         then toolbox (DisposeDataHCompletionUPP (gWriteDataHCompletionUPP s4)) s4
         else s4)"

subsection \<open>Starting a transfer (lines 108-236)\<close>

text \<open>
  What the toolbox answers to the calls of \<open>QTFileTrans_CopyRemoteFileToLocalFile\<close>,
  one field for each call that returns something the code looks at or stores (and
  \<open>FSpDelete\<close>, whose result the code discards). \<open>DataHGetFileSize_size\<close> is
  what the data handler stores through the pointer to \<open>gBytesToTransfer\<close>, if it
  stores anything.
\<close>

record toolbox_results =
  NewHandleClear_reader :: Handle
  FSpDelete_result :: OSErr
  NewHandleClear_writer :: Handle
  FSpCreate_result :: OSErr
  QTNewAlias_result :: OSErr
  QTNewAlias_alias :: Handle
  OpenComponent_reader :: ComponentInstance
  OpenComponent_writer :: ComponentInstance
  DataHSetDataRef_reader :: ComponentResult
  DataHSetDataRef_writer :: ComponentResult
  NewPtrClear_result :: Ptr
  MemError_result :: OSErr
  DataHOpenForRead_result :: ComponentResult
  DataHGetFileSize_result :: ComponentResult
  DataHGetFileSize_size :: "long option"
  DataHOpenForWrite_result :: ComponentResult

text \<open>
  Lines 220-228: reset the counters, make the two routine descriptors and pretend that a
  write of 0 bytes has just completed.
\<close>

definition start_transfer :: "long \<Rightarrow> world \<Rightarrow> world" where
  "start_transfer kDataBufferSize s =
     (let s1 = s\<lparr>gDoneTransferring := False\<rparr>;
          s2 = s1\<lparr>gBytesTransferred := 0\<rparr>;
          s3 = (toolbox (NewDataHCompletionUPP ReadDataCompletionProc) s2)
                 \<lparr>gReadDataHCompletionUPP := Some ReadDataCompletionProc\<rparr>;
          s4 = (toolbox (NewDataHCompletionUPP WriteDataCompletionProc) s3)
                 \<lparr>gWriteDataHCompletionUPP := Some WriteDataCompletionProc\<rparr>
      in QTFileTrans_WriteDataCompletionProc kDataBufferSize (gDataBuffer s4) 0 noErr s4)"

text \<open>
  Lines 110-228 of \<open>QTFileTrans_CopyRemoteFileToLocalFile\<close>: the value of
  \<open>myErr\<close> and the state on arrival at the label \<open>bail\<close>. Every
  \<open>goto bail\<close> is a branch that returns at once. An \<open>OSErr\<close> assigned to
  \<open>myErr\<close> is sign-extended (\<open>scast\<close>). \<open>sizeof(Handle)\<close> is 4.
\<close>

definition CopyRemoteFileToLocalFile_until_bail ::
    "toolbox_results \<Rightarrow> long \<Rightarrow> string \<Rightarrow> FSSpecPtr \<Rightarrow> world \<Rightarrow> ComponentResult \<times> world" where
  "CopyRemoteFileToLocalFile_until_bail tb kDataBufferSize theURL theFSSpecPtr s =
     (let myErr0 = badComponentType;
          mySize = (of_nat (length theURL) + 1 :: long)
      in if mySize = 0 then (myErr0, s) else
      let s1 = toolbox (NewHandleClear mySize) s;
          myReaderRef = NewHandleClear_reader tb
      in if myReaderRef = NULL then (myErr0, s1) else
      let s2 = toolbox (BlockMove theURL myReaderRef mySize) s1;
          s3 = toolbox (FSpDelete theFSSpecPtr) s2;
          s4 = toolbox (NewHandleClear 4) s3;
          myWriterRef0 = NewHandleClear_writer tb
      in if myWriterRef0 = NULL then (myErr0, s4) else
      let s5 = toolbox (FSpCreate theFSSpecPtr) s4;
          myErr1 = (scast (FSpCreate_result tb) :: ComponentResult)
      in if myErr1 \<noteq> noErr then (myErr1, s5) else
      let s6 = toolbox (QTNewAlias theFSSpecPtr) s5;
          myWriterRef = QTNewAlias_alias tb;
          myErr2 = (scast (QTNewAlias_result tb) :: ComponentResult)
      in if myErr2 \<noteq> noErr then (myErr2, s6) else
      let s7 = (toolbox (OpenComponent myReaderRef) s6)\<lparr>gDataReader := OpenComponent_reader tb\<rparr>
      in if gDataReader s7 = NULL then (myErr2, s7) else
      let s8 = (toolbox (OpenComponent myWriterRef) s7)\<lparr>gDataWriter := OpenComponent_writer tb\<rparr>
      in if gDataWriter s8 = NULL then (myErr2, s8) else
      let s9 = toolbox (DataHSetDataRef (gDataReader s8) myReaderRef) s8;
          myErr3 = DataHSetDataRef_reader tb
      in if myErr3 \<noteq> noErr then (myErr3, s9) else
      let s10 = toolbox (DataHSetDataRef (gDataWriter s9) myWriterRef) s9;
          myErr4 = DataHSetDataRef_writer tb
      in if myErr4 \<noteq> noErr then (myErr4, s10) else
      let s11 = (toolbox (NewPtrClear kDataBufferSize) s10)\<lparr>gDataBuffer := NewPtrClear_result tb\<rparr>;
          myErr5 = (scast (MemError_result tb) :: ComponentResult)
      in if myErr5 \<noteq> noErr then (myErr5, s11) else
      let s12 = toolbox (DataHOpenForRead (gDataReader s11)) s11;
          myErr6 = DataHOpenForRead_result tb
      in if myErr6 \<noteq> noErr then (myErr6, s12) else
      let s13 = gBytesToTransfer_update
                  (\<lambda>old. case DataHGetFileSize_size tb of None \<Rightarrow> old | Some n \<Rightarrow> n)
                  (toolbox (DataHGetFileSize (gDataReader s12)) s12);
          myErr7 = DataHGetFileSize_result tb
      in if myErr7 \<noteq> noErr then (myErr7, s13) else
      let s14 = toolbox (DataHOpenForWrite (gDataWriter s13)) s13;
          myErr8 = DataHOpenForWrite_result tb
      in if myErr8 \<noteq> noErr then (myErr8, s14) else
      (myErr8, start_transfer kDataBufferSize s14))"

text \<open>
  The whole function: from \<open>bail\<close> on (lines 230-235), teardown if \<open>myErr\<close>
  is not \<open>noErr\<close>, and \<open>myErr\<close> cut down to an \<open>OSErr\<close> as the result.
\<close>

definition QTFileTrans_CopyRemoteFileToLocalFile ::
    "toolbox_results \<Rightarrow> long \<Rightarrow> string \<Rightarrow> FSSpecPtr \<Rightarrow> world \<Rightarrow> OSErr \<times> world" where
  "QTFileTrans_CopyRemoteFileToLocalFile tb kDataBufferSize theURL theFSSpecPtr s =
     (let (myErr, s') = CopyRemoteFileToLocalFile_until_bail tb kDataBufferSize theURL theFSSpecPtr s
      in (ucast myErr, if myErr \<noteq> noErr then QTFileTrans_CloseDownHandlers s' else s'))"

subsection \<open>The data handlers complete the requests\<close>

text \<open>
  A data handler completes an asynchronous request by calling the completion routine that
  came with the request, with the request's buffer, the request's \<open>refCon\<close> and an
  error code of its own choice. A request with a \<open>NULL\<close> routine completes silently.
\<close>

fun completion :: "long \<Rightarrow> toolbox_call \<Rightarrow> OSErr \<Rightarrow> world \<Rightarrow> world" where
  "completion kDataBufferSize (DataHReadAsync dh p n w (Some ReadDataCompletionProc) rc) e s =
     QTFileTrans_ReadDataCompletionProc p rc e s"
| "completion kDataBufferSize (DataHReadAsync dh p n w (Some WriteDataCompletionProc) rc) e s =
     QTFileTrans_WriteDataCompletionProc kDataBufferSize p rc e s"
| "completion kDataBufferSize (DataHWrite dh p off n (Some ReadDataCompletionProc) rc) e s =
     QTFileTrans_ReadDataCompletionProc p rc e s"
| "completion kDataBufferSize (DataHWrite dh p off n (Some WriteDataCompletionProc) rc) e s =
     QTFileTrans_WriteDataCompletionProc kDataBufferSize p rc e s"
| "completion kDataBufferSize c e s = s"

text \<open>The oldest outstanding request completes, with error code \<open>e\<close>.\<close>

definition next_completion :: "long \<Rightarrow> OSErr \<Rightarrow> world \<Rightarrow> world" where
  "next_completion kDataBufferSize e s =
     (case outstanding s of
        [] \<Rightarrow> s
      | c # cs \<Rightarrow> completion kDataBufferSize c e (s\<lparr>outstanding := cs\<rparr>))"

text \<open>
  A sequence of completions, one for each error code of the list: the callbacks of a
  transfer, in the order in which they run.
\<close>

fun completions :: "long \<Rightarrow> OSErr list \<Rightarrow> world \<Rightarrow> world" where
  "completions kDataBufferSize [] s = s"
| "completions kDataBufferSize (e # es) s =
     completions kDataBufferSize es (next_completion kDataBufferSize e s)"

text \<open>The sizes of the reads and of the writes in a log of calls, in order.\<close>

fun read_sizes :: "toolbox_call list \<Rightarrow> long list" where
  "read_sizes [] = []"
| "read_sizes (DataHReadAsync dh p n w upp rc # cs) = n # read_sizes cs"
| "read_sizes (c # cs) = read_sizes cs"

fun write_sizes :: "toolbox_call list \<Rightarrow> long list" where
  "write_sizes [] = []"
| "write_sizes (DataHWrite dh p off n upp rc # cs) = n # write_sizes cs"
| "write_sizes (c # cs) = write_sizes cs"

text \<open>
  \<open>DataHTask\<close> gives a data handler time: the oldest outstanding request of that
  handler, if there is one, completes.
\<close>

fun request_handler :: "toolbox_call \<Rightarrow> ComponentInstance option" where
  "request_handler (DataHReadAsync dh p n w upp rc) = Some dh"
| "request_handler (DataHWrite dh p off n upp rc) = Some dh"
| "request_handler c = None"

definition DataHTask :: "long \<Rightarrow> ComponentInstance \<Rightarrow> OSErr \<Rightarrow> world \<Rightarrow> world" where
  "DataHTask kDataBufferSize dh e s =
     (case find (\<lambda>c. request_handler c = Some dh) (outstanding s) of
        None \<Rightarrow> s
      | Some c \<Rightarrow> completion kDataBufferSize c e (s\<lparr>outstanding := remove1 c (outstanding s)\<rparr>))"

text \<open>
  The driving step that the header comment of the file (lines 45-50) asks the host
  application to run periodically: each data handler is given time if its global is not
  \<open>NULL\<close>.
\<close>

definition give_time :: "long \<Rightarrow> OSErr \<Rightarrow> OSErr \<Rightarrow> world \<Rightarrow> world" where
  "give_time kDataBufferSize e1 e2 s =
     (let s1 = (if gDataReader s \<noteq> NULL then DataHTask kDataBufferSize (gDataReader s) e1 s else s)
      in if gDataWriter s1 \<noteq> NULL then DataHTask kDataBufferSize (gDataWriter s1) e2 s1 else s1)"

subsection \<open>Notions of the specification\<close>

text \<open>
  The chunk sequence as the specification words it: \<open>C, C, ..., C, S mod C\<close>, the last
  chunk omitted if \<open>S mod C = 0\<close>.
\<close>

definition expected_chunks :: "int \<Rightarrow> int \<Rightarrow> int list" where
  "expected_chunks C S = replicate (nat (S div C)) C @ (if S mod C = 0 then [] else [S mod C])"

text \<open>
  The setup steps of \<open>QTFileTrans_CopyRemoteFileToLocalFile\<close> that can fail, in
  program order, what it means for each to fail, and the first one that does.
  \<open>FSpDelete\<close> is not among them: the code discards its result (lines 140-142).
\<close>

datatype setup_step =
    URLSize | URLHandleAllocation | AliasHandleAllocation | DestinationCreate | AliasCreation
  | DataHandlerOpenRead | DataHandlerOpenWrite | DataRefSetRead | DataRefSetWrite
  | BufferAllocation | OpenForRead | SizeQuery | OpenForWrite

fun step_fails :: "toolbox_results \<Rightarrow> string \<Rightarrow> setup_step \<Rightarrow> bool" where
  "step_fails tb theURL URLSize = ((of_nat (length theURL) + 1 :: long) = 0)"
| "step_fails tb theURL URLHandleAllocation = (NewHandleClear_reader tb = NULL)"
| "step_fails tb theURL AliasHandleAllocation = (NewHandleClear_writer tb = NULL)"
| "step_fails tb theURL DestinationCreate = (FSpCreate_result tb \<noteq> noErr)"
| "step_fails tb theURL AliasCreation = (QTNewAlias_result tb \<noteq> noErr)"
| "step_fails tb theURL DataHandlerOpenRead = (OpenComponent_reader tb = NULL)"
| "step_fails tb theURL DataHandlerOpenWrite = (OpenComponent_writer tb = NULL)"
| "step_fails tb theURL DataRefSetRead = (DataHSetDataRef_reader tb \<noteq> noErr)"
| "step_fails tb theURL DataRefSetWrite = (DataHSetDataRef_writer tb \<noteq> noErr)"
| "step_fails tb theURL BufferAllocation = (MemError_result tb \<noteq> noErr)"
| "step_fails tb theURL OpenForRead = (DataHOpenForRead_result tb \<noteq> noErr)"
| "step_fails tb theURL SizeQuery = (DataHGetFileSize_result tb \<noteq> noErr)"
| "step_fails tb theURL OpenForWrite = (DataHOpenForWrite_result tb \<noteq> noErr)"

definition setup_steps :: "setup_step list" where
  "setup_steps =
     [URLSize, URLHandleAllocation, AliasHandleAllocation, DestinationCreate, AliasCreation,
      DataHandlerOpenRead, DataHandlerOpenWrite, DataRefSetRead, DataRefSetWrite,
      BufferAllocation, OpenForRead, SizeQuery, OpenForWrite]"

definition first_failure :: "toolbox_results \<Rightarrow> string \<Rightarrow> setup_step option" where
  "first_failure tb theURL = find (step_fails tb theURL) setup_steps"

text \<open>The calls that concern the destination file.\<close>

fun destination_call :: "toolbox_call \<Rightarrow> bool" where
  "destination_call (FSpDelete f) = True"
| "destination_call (FSpCreate f) = True"
| "destination_call (DataHOpenForWrite dh) = True"
| "destination_call c = False"

text \<open>A toolbox in which every call succeeds; the remote file has \<open>S\<close> bytes.\<close>

definition example_toolbox :: "long \<Rightarrow> toolbox_results" where
  "example_toolbox S =
     \<lparr>NewHandleClear_reader = 100, FSpDelete_result = fnfErr, NewHandleClear_writer = 200,
      FSpCreate_result = noErr, QTNewAlias_result = noErr, QTNewAlias_alias = 300,
      OpenComponent_reader = 1, OpenComponent_writer = 2,
      DataHSetDataRef_reader = noErr, DataHSetDataRef_writer = noErr,
      NewPtrClear_result = 500, MemError_result = noErr,
      DataHOpenForRead_result = noErr, DataHGetFileSize_result = noErr,
      DataHGetFileSize_size = Some S, DataHOpenForWrite_result = noErr\<rparr>"

text \<open>The state in which a call of the transfer function leaves a fresh program there.\<close>

definition example_transfer :: "long \<Rightarrow> world" where
  "example_transfer S =
     snd (QTFileTrans_CopyRemoteFileToLocalFile (example_toolbox S) 4096 ''http://host/f'' 7 initial_world)"

subsection \<open>Auxiliary notions of the proofs\<close>

text \<open>
  The value of \<open>myErr\<close> when the check of a step sends the code to \<open>bail\<close>. The
  two \<open>OpenComponent\<close> checks are reached only after \<open>QTNewAlias\<close> has set
  \<open>myErr\<close> to \<open>noErr\<close>, and they do not assign it.
\<close>

fun failure_code :: "toolbox_results \<Rightarrow> setup_step \<Rightarrow> ComponentResult" where
  "failure_code tb URLSize = badComponentType"
| "failure_code tb URLHandleAllocation = badComponentType"
| "failure_code tb AliasHandleAllocation = badComponentType"
| "failure_code tb DestinationCreate = scast (FSpCreate_result tb)"
| "failure_code tb AliasCreation = scast (QTNewAlias_result tb)"
| "failure_code tb DataHandlerOpenRead = noErr"
| "failure_code tb DataHandlerOpenWrite = noErr"
| "failure_code tb DataRefSetRead = DataHSetDataRef_reader tb"
| "failure_code tb DataRefSetWrite = DataHSetDataRef_writer tb"
| "failure_code tb BufferAllocation = scast (MemError_result tb)"
| "failure_code tb OpenForRead = DataHOpenForRead_result tb"
| "failure_code tb SizeQuery = DataHGetFileSize_result tb"
| "failure_code tb OpenForWrite = DataHOpenForWrite_result tb"

text \<open>The toolbox calls of a setup in which nothing fails, up to line 212.\<close>

definition setup_calls :: "toolbox_results \<Rightarrow> long \<Rightarrow> string \<Rightarrow> FSSpecPtr \<Rightarrow> toolbox_call list" where
  "setup_calls tb kDataBufferSize theURL theFSSpecPtr =
     [NewHandleClear (of_nat (length theURL) + 1),
      BlockMove theURL (NewHandleClear_reader tb) (of_nat (length theURL) + 1),
      FSpDelete theFSSpecPtr,
      NewHandleClear 4,
      FSpCreate theFSSpecPtr,
      QTNewAlias theFSSpecPtr,
      OpenComponent (NewHandleClear_reader tb),
      OpenComponent (QTNewAlias_alias tb),
      DataHSetDataRef (OpenComponent_reader tb) (NewHandleClear_reader tb),
      DataHSetDataRef (OpenComponent_writer tb) (QTNewAlias_alias tb),
      NewPtrClear kDataBufferSize,
      DataHOpenForRead (OpenComponent_reader tb),
      DataHGetFileSize (OpenComponent_reader tb),
      DataHOpenForWrite (OpenComponent_writer tb)]"

text \<open>How many of them have been made when the check of a step fails.\<close>

fun calls_made :: "setup_step \<Rightarrow> nat" where
  "calls_made URLSize = 0"
| "calls_made URLHandleAllocation = 1"
| "calls_made AliasHandleAllocation = 4"
| "calls_made DestinationCreate = 5"
| "calls_made AliasCreation = 6"
| "calls_made DataHandlerOpenRead = 7"
| "calls_made DataHandlerOpenWrite = 8"
| "calls_made DataRefSetRead = 9"
| "calls_made DataRefSetWrite = 10"
| "calls_made BufferAllocation = 11"
| "calls_made OpenForRead = 12"
| "calls_made SizeQuery = 13"
| "calls_made OpenForWrite = 14"

text \<open>The state after the first \<open>k\<close> of these calls.\<close>

definition state_after :: "toolbox_results \<Rightarrow> long \<Rightarrow> string \<Rightarrow> FSSpecPtr \<Rightarrow> nat \<Rightarrow> world \<Rightarrow> world" where
  "state_after tb kDataBufferSize theURL theFSSpecPtr k s =
     s\<lparr>gDataBuffer := (if 11 \<le> k then NewPtrClear_result tb else gDataBuffer s),
       gDataReader := (if 7 \<le> k then OpenComponent_reader tb else gDataReader s),
       gDataWriter := (if 8 \<le> k then OpenComponent_writer tb else gDataWriter s),
       gBytesToTransfer :=
         (if 13 \<le> k then (case DataHGetFileSize_size tb of None \<Rightarrow> gBytesToTransfer s | Some n \<Rightarrow> n)
          else gBytesToTransfer s),
       calls := calls s @ take k (setup_calls tb kDataBufferSize theURL theFSSpecPtr)\<rparr>"

text \<open>The calls that teardown makes in state \<open>s\<close>.\<close>

definition teardown_calls :: "world \<Rightarrow> toolbox_call list" where
  "teardown_calls s =
     (if gDataReader s \<noteq> NULL then [DataHCloseForRead (gDataReader s), CloseComponent (gDataReader s)] else []) @
     (if gDataWriter s \<noteq> NULL then [DataHCloseForWrite (gDataWriter s), CloseComponent (gDataWriter s)] else []) @
     (if gDataBuffer s \<noteq> NULL then [DisposePtr (gDataBuffer s)] else []) @
     (if gReadDataHCompletionUPP s \<noteq> None then [DisposeDataHCompletionUPP (gReadDataHCompletionUPP s)] else []) @
     (if gWriteDataHCompletionUPP s \<noteq> None then [DisposeDataHCompletionUPP (gWriteDataHCompletionUPP s)] else [])"

text \<open>The chunk that the write completion routine asks for when \<open>r\<close> bytes remain.\<close>

definition chunk :: "long \<Rightarrow> long \<Rightarrow> long" where
  "chunk C r = (if C <s r then C else r)"

text \<open>
  The invariant of a transfer under way: the descriptors are in place, the count is within
  bounds, and either the transfer is done and nothing is outstanding, or exactly one request
  is outstanding, a read or a write of a positive number of bytes that fits in what remains,
  tagged with its own size.
\<close>

fun request_tag :: "toolbox_call \<Rightarrow> long option" where
  "request_tag (DataHReadAsync dh p n w (Some ReadDataCompletionProc) rc) = (if n = rc then Some rc else None)"
| "request_tag (DataHWrite dh p off n (Some WriteDataCompletionProc) rc) = (if n = rc then Some rc else None)"
| "request_tag c = None"

definition transfer_inv :: "world \<Rightarrow> bool" where
  "transfer_inv s \<longleftrightarrow>
     gReadDataHCompletionUPP s = Some ReadDataCompletionProc \<and>
     gWriteDataHCompletionUPP s = Some WriteDataCompletionProc \<and>
     0 \<le> sint (gBytesTransferred s) \<and> sint (gBytesTransferred s) \<le> sint (gBytesToTransfer s) \<and>
     (outstanding s = [] \<and> gDoneTransferring s \<and> gBytesTransferred s = gBytesToTransfer s \<or>
      (\<exists>c m. outstanding s = [c] \<and> request_tag c = Some m \<and> \<not> gDoneTransferring s \<and>
         0 < sint m \<and> sint m \<le> sint (gBytesToTransfer s) - sint (gBytesTransferred s)))"

section \<open>Properties\<close>

subsection \<open>Arithmetic of the byte counters\<close>

lemma sint_add32:
  "- (2 ^ 31) \<le> sint a + sint b \<Longrightarrow> sint a + sint b < 2 ^ 31 \<Longrightarrow> sint (a + b :: 32 word) = sint a + sint b"
  by (simp add: sint_word_ariths signed_take_bit_int_eq_self)

lemma sint_sub32:
  "- (2 ^ 31) \<le> sint a - sint b \<Longrightarrow> sint a - sint b < 2 ^ 31 \<Longrightarrow> sint (a - b :: 32 word) = sint a - sint b"
  by (simp add: sint_word_ariths signed_take_bit_int_eq_self)

lemma sint_bounds32: "- (2 ^ 31) \<le> sint (a :: 32 word) \<and> sint a < 2 ^ 31"
  using sint_ge [of a] sint_lt [of a] by simp

lemma write_step_arith:
  fixes t n S C :: "32 word"
  assumes "0 \<le> sint t" "0 \<le> sint n" "sint t + sint n \<le> sint S"
  shows "sint (t + n) = sint t + sint n"
    and "sint (S - (t + n)) = sint S - (sint t + sint n)"
    and "t + n <s S \<longleftrightarrow> sint t + sint n < sint S"
    and "C <s S - (t + n) \<longleftrightarrow> sint C < sint S - (sint t + sint n)"
proof -
  have b: "sint S < 2 ^ 31" using sint_bounds32 [of S] by simp
  show 1: "sint (t + n) = sint t + sint n"
    using assms b by (intro sint_add32) auto
  show 2: "sint (S - (t + n)) = sint S - (sint t + sint n)"
    using assms b 1 sint_sub32 [of S "t + n"] by auto
  show "t + n <s S \<longleftrightarrow> sint t + sint n < sint S"
    by (simp add: word_sless_alt 1)
  show "C <s S - (t + n) \<longleftrightarrow> sint C < sint S - (sint t + sint n)"
    by (simp add: word_sless_alt 2)
qed

lemma write_completion_more:
  assumes "0 \<le> sint (gBytesTransferred s)" "0 \<le> sint n"
    and "sint (gBytesTransferred s) + sint n < sint (gBytesToTransfer s)"
  shows "QTFileTrans_WriteDataCompletionProc C p n e s =
           schedule (DataHReadAsync (gDataReader s) p
                       (chunk C (gBytesToTransfer s - (gBytesTransferred s + n)))
                       \<lparr>hi = 0, lo = gBytesTransferred s + n\<rparr>
                       (gReadDataHCompletionUPP s)
                       (chunk C (gBytesToTransfer s - (gBytesTransferred s + n))))
             (s\<lparr>gBytesTransferred := gBytesTransferred s + n\<rparr>)"
  using assms write_step_arith(3) [of "gBytesTransferred s" n "gBytesToTransfer s"]
  by (simp add: QTFileTrans_WriteDataCompletionProc_def Let_def chunk_def)

lemma write_completion_done:
  assumes "0 \<le> sint (gBytesTransferred s)" "0 \<le> sint n"
    and "sint (gBytesTransferred s) + sint n = sint (gBytesToTransfer s)"
  shows "QTFileTrans_WriteDataCompletionProc C p n e s =
           s\<lparr>gBytesTransferred := gBytesToTransfer s, gDoneTransferring := True\<rparr>"
proof -
  have "sint (gBytesTransferred s + n) = sint (gBytesToTransfer s)"
    using assms write_step_arith(1) [of "gBytesTransferred s" n "gBytesToTransfer s"] by simp
  then have "gBytesTransferred s + n = gBytesToTransfer s"
    by (rule signed_word_eqI)
  then show ?thesis
    by (simp add: QTFileTrans_WriteDataCompletionProc_def Let_def)
qed

lemma sint_chunk:
  assumes "0 < sint C" "0 \<le> sint t" "0 \<le> sint n" "sint t + sint n < sint S"
  shows "sint (chunk C (S - (t + n))) = min (sint C) (sint S - (sint t + sint n))"
  using assms write_step_arith(2) [of t n S] write_step_arith(4) [of t n S C]
  by (simp add: chunk_def min_def)

lemma request_tag_SomeD:
  assumes "request_tag c = Some m"
  shows "(\<exists>dh p w. c = DataHReadAsync dh p m w (Some ReadDataCompletionProc) m) \<or>
         (\<exists>dh p off. c = DataHWrite dh p off m (Some WriteDataCompletionProc) m)"
  using assms by (cases c rule: request_tag.cases) (auto split: if_splits)

lemma inv_write:
  assumes "0 < sint C"
    and "gReadDataHCompletionUPP s = Some ReadDataCompletionProc"
    and "gWriteDataHCompletionUPP s = Some WriteDataCompletionProc"
    and "outstanding s = []" "\<not> gDoneTransferring s"
    and "0 \<le> sint (gBytesTransferred s)" "0 \<le> sint n"
    and "sint (gBytesTransferred s) + sint n \<le> sint (gBytesToTransfer s)"
  shows "transfer_inv (QTFileTrans_WriteDataCompletionProc C p n e s)"
    and "gBytesToTransfer (QTFileTrans_WriteDataCompletionProc C p n e s) = gBytesToTransfer s"
    and "sint (gBytesTransferred (QTFileTrans_WriteDataCompletionProc C p n e s)) =
           sint (gBytesTransferred s) + sint n"
proof -
  let ?t = "gBytesTransferred s" and ?S = "gBytesToTransfer s"
  have add: "sint (?t + n) = sint ?t + sint n"
    using assms write_step_arith(1) [of ?t n ?S] by simp
  show "transfer_inv (QTFileTrans_WriteDataCompletionProc C p n e s)"
  proof (cases "sint ?t + sint n < sint ?S")
    case True
    then show ?thesis
      using assms add sint_chunk [of C ?t n ?S]
      by (simp add: write_completion_more transfer_inv_def schedule_def)
  next
    case False
    then have "sint ?t + sint n = sint ?S" using assms by simp
    then show ?thesis
      using assms by (simp add: write_completion_done transfer_inv_def)
  qed
  show "gBytesToTransfer (QTFileTrans_WriteDataCompletionProc C p n e s) = ?S"
    by (simp add: QTFileTrans_WriteDataCompletionProc_def Let_def schedule_def)
  show "sint (gBytesTransferred (QTFileTrans_WriteDataCompletionProc C p n e s)) = sint ?t + sint n"
    using add by (simp add: QTFileTrans_WriteDataCompletionProc_def Let_def schedule_def)
qed

lemma inv_start:
  assumes "0 <s C" "0 \<le>s gBytesToTransfer s" "outstanding s = []"
  shows "transfer_inv (start_transfer C s)"
    and "gBytesToTransfer (start_transfer C s) = gBytesToTransfer s"
    and "gBytesTransferred (start_transfer C s) = 0"
proof -
  let ?s4 = "(toolbox (NewDataHCompletionUPP WriteDataCompletionProc)
               ((toolbox (NewDataHCompletionUPP ReadDataCompletionProc)
                  (s\<lparr>gDoneTransferring := False, gBytesTransferred := 0\<rparr>))
                \<lparr>gReadDataHCompletionUPP := Some ReadDataCompletionProc\<rparr>))
             \<lparr>gWriteDataHCompletionUPP := Some WriteDataCompletionProc\<rparr>"
  have st: "start_transfer C s = QTFileTrans_WriteDataCompletionProc C (gDataBuffer s) 0 noErr ?s4"
    by (simp add: start_transfer_def Let_def toolbox_def)
  have C: "0 < sint C" and S: "0 \<le> sint (gBytesToTransfer s)"
    using assms by (simp_all add: word_sless_alt word_sle_eq)
  show "transfer_inv (start_transfer C s)"
    unfolding st using C S assms(3) by (intro inv_write) (simp_all add: toolbox_def)
  show "gBytesToTransfer (start_transfer C s) = gBytesToTransfer s"
    unfolding st by (simp add: QTFileTrans_WriteDataCompletionProc_def Let_def schedule_def toolbox_def)
  show "gBytesTransferred (start_transfer C s) = 0"
    unfolding st by (simp add: QTFileTrans_WriteDataCompletionProc_def Let_def schedule_def toolbox_def)
qed

lemma inv_next:
  assumes "0 < sint C" "transfer_inv s"
  shows "transfer_inv (next_completion C e s)"
    and "gBytesToTransfer (next_completion C e s) = gBytesToTransfer s"
    and "sint (gBytesTransferred s) \<le> sint (gBytesTransferred (next_completion C e s))"
    and "gDoneTransferring s \<longrightarrow> gDoneTransferring (next_completion C e s)"
proof -
  let ?P = "transfer_inv (next_completion C e s) \<and>
            gBytesToTransfer (next_completion C e s) = gBytesToTransfer s \<and>
            sint (gBytesTransferred s) \<le> sint (gBytesTransferred (next_completion C e s)) \<and>
            (gDoneTransferring s \<longrightarrow> gDoneTransferring (next_completion C e s))"
  have upp: "gReadDataHCompletionUPP s = Some ReadDataCompletionProc"
            "gWriteDataHCompletionUPP s = Some WriteDataCompletionProc"
    and t0: "0 \<le> sint (gBytesTransferred s)"
    and tS: "sint (gBytesTransferred s) \<le> sint (gBytesToTransfer s)"
    using assms(2) by (simp_all add: transfer_inv_def)
  consider (idle) "outstanding s = []"
    | (busy) c m where "outstanding s = [c]" "request_tag c = Some m" "\<not> gDoneTransferring s"
        "0 < sint m" "sint m \<le> sint (gBytesToTransfer s) - sint (gBytesTransferred s)"
    using assms(2) by (auto simp: transfer_inv_def)
  then have ?P
  proof cases
    case idle
    then show ?thesis using assms(2) by (simp add: next_completion_def)
  next
    case busy
    from request_tag_SomeD [OF busy(2)] show ?thesis
    proof (elim disjE exE)
      fix dh p w
      assume c: "c = DataHReadAsync dh p m w (Some ReadDataCompletionProc) m"
      show ?thesis
        using busy upp t0 tS
        by (simp add: c next_completion_def QTFileTrans_ReadDataCompletionProc_def
              schedule_def transfer_inv_def)
    next
      fix dh p off
      assume c: "c = DataHWrite dh p off m (Some WriteDataCompletionProc) m"
      let ?s' = "s\<lparr>outstanding := []\<rparr>"
      have n: "next_completion C e s = QTFileTrans_WriteDataCompletionProc C p m e ?s'"
        using busy by (simp add: c next_completion_def)
      have "transfer_inv (QTFileTrans_WriteDataCompletionProc C p m e ?s')"
        using assms(1) busy upp t0 by (intro inv_write) simp_all
      moreover have "gBytesToTransfer (QTFileTrans_WriteDataCompletionProc C p m e ?s') = gBytesToTransfer ?s'"
        using assms(1) busy upp t0 by (intro inv_write) simp_all
      moreover have "sint (gBytesTransferred (QTFileTrans_WriteDataCompletionProc C p m e ?s')) =
                       sint (gBytesTransferred ?s') + sint m"
        using assms(1) busy upp t0 by (intro inv_write) simp_all
      ultimately show ?thesis
        using busy by (simp add: n)
    qed
  qed
  then show "transfer_inv (next_completion C e s)"
    and "gBytesToTransfer (next_completion C e s) = gBytesToTransfer s"
    and "sint (gBytesTransferred s) \<le> sint (gBytesTransferred (next_completion C e s))"
    and "gDoneTransferring s \<longrightarrow> gDoneTransferring (next_completion C e s)"
    by simp_all
qed

lemma inv_completions:
  assumes "0 < sint C" "transfer_inv s"
  shows "transfer_inv (completions C es s) \<and>
         gBytesToTransfer (completions C es s) = gBytesToTransfer s"
  using assms(2)
proof (induction es arbitrary: s)
  case Nil
  then show ?case by simp
next
  case (Cons e es)
  then show ?case using inv_next(1,2) [OF assms(1) Cons.prems] by simp
qed

lemma read_sizes_append: "read_sizes (xs @ ys) = read_sizes xs @ read_sizes ys"
  by (induction xs rule: read_sizes.induct) simp_all

lemma write_sizes_append: "write_sizes (xs @ ys) = write_sizes xs @ write_sizes ys"
  by (induction xs rule: write_sizes.induct) simp_all

lemma completions_append: "completions C (es @ es') s = completions C es' (completions C es s)"
  by (induction es arbitrary: s) simp_all

lemma completions_idle: "outstanding s = [] \<Longrightarrow> completions C es s = s"
  by (induction es) (simp_all add: next_completion_def)

lemma expected_chunks_0: "expected_chunks C 0 = []"
  by (simp add: expected_chunks_def)

lemma expected_chunks_step:
  assumes "0 < C" "0 < r"
  shows "expected_chunks C r = min C r # expected_chunks C (r - min C r)"
proof (cases "C \<le> r")
  case True
  have "((r - C) + C) div C = (r - C) div C + 1"
    using assms by (subst div_add_self2) simp_all
  moreover have "((r - C) + C) mod C = (r - C) mod C"
    by (rule mod_add_self2)
  ultimately have d: "(r - C) div C = r div C - 1" and m: "(r - C) mod C = r mod C"
    by simp_all
  have "0 \<le> (r - C) div C" using assms True by (simp add: pos_imp_zdiv_nonneg_iff)
  then have "1 \<le> r div C" using d by simp
  then have "nat (r div C) = Suc (nat (r div C - 1))" by simp
  then show ?thesis
    using True by (simp add: expected_chunks_def d m min_def)
next
  case False
  then show ?thesis
    using assms by (simp add: expected_chunks_def min_def)
qed

lemma sum_expected_chunks: "sum_list (expected_chunks C S) = S"
  if "0 < C" "0 \<le> S"
proof -
  have "0 \<le> S div C" using that by (simp add: pos_imp_zdiv_nonneg_iff)
  moreover have "S mod C = 0 \<Longrightarrow> S div C * C = S"
    using div_mult_mod_eq [of S C] by (simp del: div_mult_mod_eq)
  ultimately show ?thesis
    by (simp add: expected_chunks_def sum_list_replicate)
qed

lemma run_from_write:
  assumes C: "0 < sint C"
  shows "gReadDataHCompletionUPP s = Some ReadDataCompletionProc \<Longrightarrow>
         gWriteDataHCompletionUPP s = Some WriteDataCompletionProc \<Longrightarrow>
         outstanding s = [] \<Longrightarrow>
         0 \<le> sint (gBytesTransferred s) \<Longrightarrow> 0 \<le> sint n \<Longrightarrow>
         sint (gBytesTransferred s) + sint n \<le> sint (gBytesToTransfer s) \<Longrightarrow>
         r = sint (gBytesToTransfer s) - (sint (gBytesTransferred s) + sint n) \<Longrightarrow>
         2 * length (expected_chunks (sint C) r) \<le> length es \<Longrightarrow>
         sf = completions C es (QTFileTrans_WriteDataCompletionProc C p n e s) \<Longrightarrow>
         map sint (read_sizes (calls sf)) =
           map sint (read_sizes (calls s)) @ expected_chunks (sint C) r \<and>
         map sint (write_sizes (calls sf)) =
           map sint (write_sizes (calls s)) @ expected_chunks (sint C) r \<and>
         gDoneTransferring sf \<and> outstanding sf = [] \<and>
         gBytesTransferred sf = gBytesToTransfer s"
proof (induction "nat r" arbitrary: s n e es r sf rule: less_induct)
  case less
  let ?t = "gBytesTransferred s" and ?S = "gBytesToTransfer s"
  show ?case
  proof (cases "r = 0")
    case True
    then have eq: "sint ?t + sint n = sint ?S" using less.prems by simp
    have w: "QTFileTrans_WriteDataCompletionProc C p n e s =
               s\<lparr>gBytesTransferred := ?S, gDoneTransferring := True\<rparr>"
      using less.prems eq by (intro write_completion_done) simp_all
    have "sf = s\<lparr>gBytesTransferred := ?S, gDoneTransferring := True\<rparr>"
      using less.prems by (simp add: w completions_idle)
    then show ?thesis using True less.prems(3) by (simp add: expected_chunks_0)
  next
    case False
    then have r: "0 < r" and lt: "sint ?t + sint n < sint ?S"
      using less.prems by simp_all
    define m where "m = chunk C (?S - (?t + n))"
    have sm: "sint m = min (sint C) r"
      using less.prems lt C by (simp add: m_def sint_chunk)
    have add: "sint (?t + n) = sint ?t + sint n"
      using less.prems write_step_arith(1) [of ?t n ?S] by simp
    have ec: "expected_chunks (sint C) r = sint m # expected_chunks (sint C) (r - sint m)"
      using expected_chunks_step [OF C r] sm by simp
    then obtain e1 e2 es' where es: "es = e1 # e2 # es'"
      using less.prems(8) by (cases es; cases "tl es") auto
    define s' where "s' = (toolbox (DataHWrite (gDataWriter s) p (?t + n) m
                                      (Some WriteDataCompletionProc) m)
                            (toolbox (DataHReadAsync (gDataReader s) p m \<lparr>hi = 0, lo = ?t + n\<rparr>
                                        (Some ReadDataCompletionProc) m)
                               (s\<lparr>gBytesTransferred := ?t + n\<rparr>)))\<lparr>outstanding := []\<rparr>"
    have w: "QTFileTrans_WriteDataCompletionProc C p n e s =
               schedule (DataHReadAsync (gDataReader s) p m \<lparr>hi = 0, lo = ?t + n\<rparr>
                           (Some ReadDataCompletionProc) m)
                 (s\<lparr>gBytesTransferred := ?t + n\<rparr>)"
      using less.prems lt by (simp add: write_completion_more m_def)
    have two: "next_completion C e2 (next_completion C e1 (QTFileTrans_WriteDataCompletionProc C p n e s)) =
                 QTFileTrans_WriteDataCompletionProc C p m e2 s'"
      using less.prems(2,3)
      by (simp add: w s'_def schedule_def toolbox_def next_completion_def
            QTFileTrans_ReadDataCompletionProc_def)
    have sf: "sf = completions C es' (QTFileTrans_WriteDataCompletionProc C p m e2 s')"
      using less.prems(9) by (simp add: es two)
    have "map sint (read_sizes (calls sf)) =
            map sint (read_sizes (calls s')) @ expected_chunks (sint C) (r - sint m) \<and>
          map sint (write_sizes (calls sf)) =
            map sint (write_sizes (calls s')) @ expected_chunks (sint C) (r - sint m) \<and>
          gDoneTransferring sf \<and> outstanding sf = [] \<and>
          gBytesTransferred sf = gBytesToTransfer s'"
    proof (rule less.hyps [where s = s' and n = m and es = es' and e = e2])
      show "nat (r - sint m) < nat r" using r sm C by simp
      show "gReadDataHCompletionUPP s' = Some ReadDataCompletionProc"
        using less.prems by (simp add: s'_def toolbox_def)
      show "gWriteDataHCompletionUPP s' = Some WriteDataCompletionProc"
        using less.prems by (simp add: s'_def toolbox_def)
      show "outstanding s' = []" using less.prems by (simp add: s'_def)
      show "0 \<le> sint (gBytesTransferred s')" using less.prems add by (simp add: s'_def toolbox_def)
      show "0 \<le> sint m" using sm r C by simp
      show "sint (gBytesTransferred s') + sint m \<le> sint (gBytesToTransfer s')"
        using less.prems add sm by (simp add: s'_def toolbox_def)
      show "r - sint m = sint (gBytesToTransfer s') - (sint (gBytesTransferred s') + sint m)"
        using less.prems add by (simp add: s'_def toolbox_def)
      show "2 * length (expected_chunks (sint C) (r - sint m)) \<le> length es'"
        using less.prems(8) by (simp add: ec es)
      show "sf = completions C es' (QTFileTrans_WriteDataCompletionProc C p m e2 s')"
        by (fact sf)
    qed
    then show ?thesis
      by (simp add: ec s'_def toolbox_def read_sizes_append write_sizes_append)
  qed
qed

lemma done_write:
  "gDoneTransferring s \<Longrightarrow> gDoneTransferring (QTFileTrans_WriteDataCompletionProc C p n e s)"
  by (simp add: QTFileTrans_WriteDataCompletionProc_def Let_def schedule_def)

lemma done_read:
  "gDoneTransferring s \<Longrightarrow> gDoneTransferring (QTFileTrans_ReadDataCompletionProc p n e s)"
  by (simp add: QTFileTrans_ReadDataCompletionProc_def schedule_def)

lemma done_completion:
  "gDoneTransferring s \<Longrightarrow> gDoneTransferring (completion C c e s)"
  by (cases "(C, c, e, s)" rule: completion.cases) (simp_all add: done_write done_read)

lemma done_next: "gDoneTransferring s \<Longrightarrow> gDoneTransferring (next_completion C e s)"
  by (cases "outstanding s") (simp_all add: next_completion_def done_completion)

lemma done_completions: "gDoneTransferring s \<Longrightarrow> gDoneTransferring (completions C es s)"
  by (induction es arbitrary: s) (simp_all add: done_next)

lemma inv_run:
  assumes "0 <s C" "0 \<le>s gBytesToTransfer s" "outstanding s = []"
  shows "transfer_inv (completions C errs (start_transfer C s))"
    and "gBytesToTransfer (completions C errs (start_transfer C s)) = gBytesToTransfer s"
proof -
  have C: "0 < sint C" using assms(1) by (simp add: word_sless_alt)
  show "transfer_inv (completions C errs (start_transfer C s))"
    using inv_completions [OF C inv_start(1) [OF assms]] by simp
  show "gBytesToTransfer (completions C errs (start_transfer C s)) = gBytesToTransfer s"
    using inv_completions [OF C inv_start(1) [OF assms]] inv_start(2) [OF assms] by simp
qed

subsection \<open>Setup and teardown\<close>

lemma ucast_scast_OSErr: "(ucast (scast (x :: OSErr) :: ComponentResult) :: OSErr) = x"
  by (rule bit_word_eqI) (auto simp add: bit_simps)

lemma scast_OSErr_eq_0: "(scast (x :: OSErr) :: ComponentResult) = 0 \<longleftrightarrow> x = 0"
  using ucast_scast_OSErr [of x] by auto


lemma first_failure_cases:
  assumes "first_failure tb theURL = Some st"
  shows "step_fails tb theURL st \<and> (\<forall>st' \<in> set (takeWhile (\<lambda>x. x \<noteq> st) setup_steps). \<not> step_fails tb theURL st')"
  using assms unfolding first_failure_def setup_steps_def
  by (cases st) (simp_all split: if_splits)

lemma until_bail_failure:
  assumes "first_failure tb theURL = Some st"
  shows "CopyRemoteFileToLocalFile_until_bail tb C theURL fsp s =
           (failure_code tb st, state_after tb C theURL fsp (calls_made st) s)"
  using first_failure_cases [OF assms]
  by (cases st;
      simp add: setup_steps_def CopyRemoteFileToLocalFile_until_bail_def Let_def toolbox_def
        noErr_def scast_OSErr_eq_0;
      intro world.equality; simp add: state_after_def setup_calls_def)

lemma first_failure_None:
  assumes "first_failure tb theURL = None"
  shows "\<forall>st \<in> set setup_steps. \<not> step_fails tb theURL st"
  using assms unfolding first_failure_def by (simp add: find_None_iff)

lemma until_bail_success:
  assumes "first_failure tb theURL = None"
  shows "CopyRemoteFileToLocalFile_until_bail tb C theURL fsp s =
           (noErr, start_transfer C (state_after tb C theURL fsp 14 s))"
  using first_failure_None [OF assms]
  apply (simp add: setup_steps_def CopyRemoteFileToLocalFile_until_bail_def Let_def
          noErr_def scast_OSErr_eq_0 toolbox_def)
  apply (rule arg_cong [where f = "start_transfer C"])
  apply (intro world.equality; simp add: state_after_def setup_calls_def)
  done

lemma failure_code_nonzero:
  assumes "first_failure tb theURL = Some st"
    and "st \<noteq> DataHandlerOpenRead" "st \<noteq> DataHandlerOpenWrite"
  shows "failure_code tb st \<noteq> noErr"
  using first_failure_cases [OF assms(1)] assms(2,3)
  by (cases st) (simp_all add: noErr_def scast_OSErr_eq_0 badComponentType_def)

lemma failure_code_OSErr:
  assumes "first_failure tb theURL = Some st"
    and "st \<in> {URLSize, URLHandleAllocation, AliasHandleAllocation, DestinationCreate,
                AliasCreation, BufferAllocation}"
  shows "(ucast (failure_code tb st) :: OSErr) \<noteq> noErr"
  using first_failure_cases [OF assms(1)] assms(2)
  by (cases st) (simp_all add: noErr_def ucast_scast_OSErr badComponentType_def)

lemma teardown_globals:
  "gDataReader (QTFileTrans_CloseDownHandlers s) = NULL"
  "gDataWriter (QTFileTrans_CloseDownHandlers s) = NULL"
  "gDataBuffer (QTFileTrans_CloseDownHandlers s) = gDataBuffer s"
  "gReadDataHCompletionUPP (QTFileTrans_CloseDownHandlers s) = gReadDataHCompletionUPP s"
  "gWriteDataHCompletionUPP (QTFileTrans_CloseDownHandlers s) = gWriteDataHCompletionUPP s"
  "gBytesToTransfer (QTFileTrans_CloseDownHandlers s) = gBytesToTransfer s"
  "gBytesTransferred (QTFileTrans_CloseDownHandlers s) = gBytesTransferred s"
  "gDoneTransferring (QTFileTrans_CloseDownHandlers s) = gDoneTransferring s"
  "outstanding (QTFileTrans_CloseDownHandlers s) = outstanding s"
  by (simp_all add: QTFileTrans_CloseDownHandlers_def Let_def toolbox_def)

lemma teardown_log: "calls (QTFileTrans_CloseDownHandlers s) = calls s @ teardown_calls s"
  by (simp add: QTFileTrans_CloseDownHandlers_def Let_def toolbox_def teardown_calls_def)

lemma teardown_calls_no_io:
  "read_sizes (teardown_calls s) = []" "write_sizes (teardown_calls s) = []"
  "filter destination_call (teardown_calls s) = []"
  by (simp_all add: teardown_calls_def read_sizes_append write_sizes_append)

lemma setup_calls_no_io:
  "read_sizes (take k (setup_calls tb C theURL fsp)) = []"
  "write_sizes (take k (setup_calls tb C theURL fsp)) = []"
proof -
  have r: "read_sizes (setup_calls tb C theURL fsp) = []"
    and w: "write_sizes (setup_calls tb C theURL fsp) = []"
    by (simp_all add: setup_calls_def)
  have "read_sizes (take k (setup_calls tb C theURL fsp) @ drop k (setup_calls tb C theURL fsp)) = []"
    using r by simp
  then show "read_sizes (take k (setup_calls tb C theURL fsp)) = []"
    unfolding read_sizes_append by simp
  have "write_sizes (take k (setup_calls tb C theURL fsp) @ drop k (setup_calls tb C theURL fsp)) = []"
    using w by simp
  then show "write_sizes (take k (setup_calls tb C theURL fsp)) = []"
    unfolding write_sizes_append by simp
qed

text \<open>The sibling paths: every other failing step tears down and reports its code.\<close>

lemma setup_failure_tears_down:
  assumes "first_failure tb theURL = Some st"
    and "st \<noteq> DataHandlerOpenRead" "st \<noteq> DataHandlerOpenWrite"
  shows "QTFileTrans_CopyRemoteFileToLocalFile tb C theURL fsp s =
           (ucast (failure_code tb st),
            QTFileTrans_CloseDownHandlers (state_after tb C theURL fsp (calls_made st) s))"
    and "outstanding (snd (QTFileTrans_CopyRemoteFileToLocalFile tb C theURL fsp s)) = outstanding s"
    and "read_sizes (calls (snd (QTFileTrans_CopyRemoteFileToLocalFile tb C theURL fsp s))) =
           read_sizes (calls s)"
    and "write_sizes (calls (snd (QTFileTrans_CopyRemoteFileToLocalFile tb C theURL fsp s))) =
           write_sizes (calls s)"
proof -
  show eq: "QTFileTrans_CopyRemoteFileToLocalFile tb C theURL fsp s =
           (ucast (failure_code tb st),
            QTFileTrans_CloseDownHandlers (state_after tb C theURL fsp (calls_made st) s))"
    using failure_code_nonzero [OF assms]
    by (simp add: QTFileTrans_CopyRemoteFileToLocalFile_def until_bail_failure [OF assms(1)])
  show "outstanding (snd (QTFileTrans_CopyRemoteFileToLocalFile tb C theURL fsp s)) = outstanding s"
    by (simp add: eq teardown_globals state_after_def)
  show "read_sizes (calls (snd (QTFileTrans_CopyRemoteFileToLocalFile tb C theURL fsp s))) =
           read_sizes (calls s)"
    by (simp add: eq teardown_log teardown_calls_no_io read_sizes_append state_after_def
          setup_calls_no_io)
  show "write_sizes (calls (snd (QTFileTrans_CopyRemoteFileToLocalFile tb C theURL fsp s))) =
           write_sizes (calls s)"
    by (simp add: eq teardown_log teardown_calls_no_io write_sizes_append state_after_def
          setup_calls_no_io)
qed

text \<open>The two \<open>OpenComponent\<close> checks: \<open>myErr\<close> is \<open>noErr\<close> there.\<close>

lemma open_failure_skips_teardown:
  assumes "first_failure tb theURL = Some st"
    and "st = DataHandlerOpenRead \<or> st = DataHandlerOpenWrite"
  shows "QTFileTrans_CopyRemoteFileToLocalFile tb C theURL fsp s =
           (noErr, state_after tb C theURL fsp (calls_made st) s)"
  using assms(2)
  by (auto simp add: QTFileTrans_CopyRemoteFileToLocalFile_def until_bail_failure [OF assms(1)] noErr_def)

lemma copy_success:
  assumes "first_failure tb theURL = None"
  shows "QTFileTrans_CopyRemoteFileToLocalFile tb C theURL fsp s =
           (noErr, start_transfer C (state_after tb C theURL fsp 14 s))"
  by (simp add: QTFileTrans_CopyRemoteFileToLocalFile_def until_bail_success [OF assms] noErr_def)

lemma copy_failure:
  assumes "first_failure tb theURL = Some st"
  shows "QTFileTrans_CopyRemoteFileToLocalFile tb C theURL fsp s =
           (ucast (failure_code tb st),
            if failure_code tb st \<noteq> noErr
            then QTFileTrans_CloseDownHandlers (state_after tb C theURL fsp (calls_made st) s)
            else state_after tb C theURL fsp (calls_made st) s)"
  by (simp add: QTFileTrans_CopyRemoteFileToLocalFile_def until_bail_failure [OF assms])

lemma start_transfer_log:
  "\<exists>xs. calls (start_transfer C s) = calls s @ xs \<and> filter destination_call xs = []"
  by (simp add: start_transfer_def Let_def toolbox_def QTFileTrans_WriteDataCompletionProc_def
        schedule_def)

lemma delete_result_unused:
  "CopyRemoteFileToLocalFile_until_bail (tb\<lparr>FSpDelete_result := d\<rparr>) C theURL fsp s =
   CopyRemoteFileToLocalFile_until_bail tb C theURL fsp s"
proof -
  let ?tb = "tb\<lparr>FSpDelete_result := d\<rparr>"
  have ff: "first_failure ?tb theURL = first_failure tb theURL"
    by (simp add: first_failure_def setup_steps_def)
  have sa: "state_after ?tb C theURL fsp k s = state_after tb C theURL fsp k s" for k
    by (simp add: state_after_def setup_calls_def)
  show ?thesis
  proof (cases "first_failure tb theURL")
    case None
    then show ?thesis
      using ff by (simp add: until_bail_success sa)
  next
    case (Some st)
    have "failure_code ?tb st = failure_code tb st"
      by (cases st) simp_all
    then show ?thesis
      using ff Some by (simp add: until_bail_failure sa)
  qed
qed

lemma destination_calls_take:
  "prefix (filter destination_call (take (calls_made st) (setup_calls tb C theURL fsp)))
     [FSpDelete fsp, FSpCreate fsp, DataHOpenForWrite (OpenComponent_writer tb)]"
  by (cases st) (simp_all add: setup_calls_def)

lemma start_transfer_zero:
  assumes "gBytesToTransfer s = 0"
  shows "start_transfer C s =
           (toolbox (NewDataHCompletionUPP WriteDataCompletionProc)
              (toolbox (NewDataHCompletionUPP ReadDataCompletionProc) s))
           \<lparr>gReadDataHCompletionUPP := Some ReadDataCompletionProc,
             gWriteDataHCompletionUPP := Some WriteDataCompletionProc,
             gBytesTransferred := 0, gDoneTransferring := True\<rparr>"
  using assms
  by (simp add: start_transfer_def Let_def toolbox_def QTFileTrans_WriteDataCompletionProc_def)

lemma completion_error_ignored: "completion C c e1 s = completion C c e2 s"
  by (cases "(C, c, e1, s)" rule: completion.cases)
     (simp_all add: QTFileTrans_ReadDataCompletionProc_def QTFileTrans_WriteDataCompletionProc_def)

lemma start_transfer_new_calls:
  "\<exists>xs. calls (start_transfer C s) = calls s @ xs \<and> filter destination_call xs = [] \<and>
        write_sizes xs = []"
  by (simp add: start_transfer_def Let_def toolbox_def QTFileTrans_WriteDataCompletionProc_def
        schedule_def)

lemma copy_new_calls:
  "\<exists>xs. drop (length (calls s)) (calls (snd (QTFileTrans_CopyRemoteFileToLocalFile tb C theURL fsp s))) =
          take (case first_failure tb theURL of None \<Rightarrow> 14 | Some st \<Rightarrow> calls_made st)
            (setup_calls tb C theURL fsp) @ xs \<and>
        filter destination_call xs = [] \<and> write_sizes xs = [] \<and>
        (first_failure tb theURL \<noteq> None \<longrightarrow> read_sizes xs = [])"
proof (cases "first_failure tb theURL")
  case None
  obtain xs where xs: "calls (start_transfer C (state_after tb C theURL fsp 14 s)) =
      calls (state_after tb C theURL fsp 14 s) @ xs" "filter destination_call xs = []"
      "write_sizes xs = []"
    using start_transfer_new_calls by blast
  have "drop (length (calls s)) (calls (snd (QTFileTrans_CopyRemoteFileToLocalFile tb C theURL fsp s))) =
          take 14 (setup_calls tb C theURL fsp) @ xs"
    unfolding copy_success [OF None] snd_conv xs(1)
    by (simp add: state_after_def)
  then show ?thesis using None xs(2,3) by simp
next
  case (Some st)
  have "drop (length (calls s)) (calls (snd (QTFileTrans_CopyRemoteFileToLocalFile tb C theURL fsp s))) =
          take (calls_made st) (setup_calls tb C theURL fsp) @
          (if failure_code tb st \<noteq> noErr
           then teardown_calls (state_after tb C theURL fsp (calls_made st) s) else [])"
    by (simp add: copy_failure [OF Some] teardown_log state_after_def)
  then show ?thesis
    using Some by (simp add: teardown_calls_no_io)
qed

lemma destination_call_not_in:
  "filter destination_call xs = [] \<Longrightarrow> DataHOpenForWrite dh \<notin> set xs"
  by (auto simp: filter_empty_conv)

lemma open_for_write_in_take:
  assumes "DataHOpenForWrite dh \<in> set (take (calls_made st) (setup_calls tb C theURL fsp))"
  shows "st = OpenForWrite \<and> dh = OpenComponent_writer tb"
  using assms by (cases st) (simp_all add: setup_calls_def)

lemma open_for_write_in_setup:
  assumes "DataHOpenForWrite dh \<in> set (take 14 (setup_calls tb C theURL fsp))"
  shows "dh = OpenComponent_writer tb"
  using assms by (simp add: setup_calls_def)

lemma steps_before_open_for_write:
  assumes "first_failure tb theURL = None \<or> first_failure tb theURL = Some OpenForWrite"
  shows "FSpCreate_result tb = noErr \<and> QTNewAlias_result tb = noErr"
  using assms
proof
  assume "first_failure tb theURL = None"
  from first_failure_None [OF this] show ?thesis by (simp add: setup_steps_def)
next
  assume "first_failure tb theURL = Some OpenForWrite"
  from first_failure_cases [OF this] show ?thesis by (simp add: setup_steps_def)
qed

lemma create_failure_first:
  assumes "FSpCreate_result tb \<noteq> noErr"
  shows "\<exists>st. first_failure tb theURL = Some st \<and>
           st \<in> {URLSize, URLHandleAllocation, AliasHandleAllocation, DestinationCreate}"
  using assms by (simp add: first_failure_def setup_steps_def)

section \<open>The claims\<close>

subsection \<open>The transfer loop\<close>

text \<open>
  Claim C1. Let the buffer capacity \<open>C\<close> be positive and the total size \<open>S\<close> be
  non-negative, and let no request be outstanding when the transfer starts. Once each chunk's
  read and write completion has run (two completions for each chunk, whatever their error
  codes), the sizes of the reads issued are \<open>C, ..., C, S mod C\<close> (the last one omitted if
  \<open>S mod C = 0\<close>), their sum is \<open>S\<close>, the writes have the same sizes, \<open>S\<close> bytes are
  accounted for and the transfer is done. For a remote file of 10000 bytes and \<open>C = 4096\<close>,
  the transfer function followed by six completions reads and writes 4096, 4096, 1808 bytes.
\<close>
theorem chunking_correct:
  assumes "0 <s C" and "0 \<le>s gBytesToTransfer s" and "outstanding s = []"
    and "2 * length (expected_chunks (sint C) (sint (gBytesToTransfer s))) \<le> length errs"
  shows "map sint (read_sizes (calls (completions C errs (start_transfer C s)))) =
           map sint (read_sizes (calls s)) @ expected_chunks (sint C) (sint (gBytesToTransfer s)) \<and>
         sum_list (expected_chunks (sint C) (sint (gBytesToTransfer s))) = sint (gBytesToTransfer s) \<and>
         map sint (write_sizes (calls (completions C errs (start_transfer C s)))) =
           map sint (write_sizes (calls s)) @ expected_chunks (sint C) (sint (gBytesToTransfer s)) \<and>
         gBytesTransferred (completions C errs (start_transfer C s)) = gBytesToTransfer s \<and>
         gDoneTransferring (completions C errs (start_transfer C s)) \<and>
         outstanding (completions C errs (start_transfer C s)) = []"
proof -
  let ?s4 = "(toolbox (NewDataHCompletionUPP WriteDataCompletionProc)
               ((toolbox (NewDataHCompletionUPP ReadDataCompletionProc)
                  (s\<lparr>gDoneTransferring := False, gBytesTransferred := 0\<rparr>))
                \<lparr>gReadDataHCompletionUPP := Some ReadDataCompletionProc\<rparr>))
             \<lparr>gWriteDataHCompletionUPP := Some WriteDataCompletionProc\<rparr>"
  let ?sf = "completions C errs (start_transfer C s)"
  let ?S = "sint (gBytesToTransfer s)"
  have st: "start_transfer C s = QTFileTrans_WriteDataCompletionProc C (gDataBuffer s) 0 noErr ?s4"
    by (simp add: start_transfer_def Let_def toolbox_def)
  have C: "0 < sint C" and S: "0 \<le> ?S"
    using assms by (simp_all add: word_sless_alt word_sle_eq)
  have run: "map sint (read_sizes (calls ?sf)) =
           map sint (read_sizes (calls ?s4)) @ expected_chunks (sint C) ?S \<and>
         map sint (write_sizes (calls ?sf)) =
           map sint (write_sizes (calls ?s4)) @ expected_chunks (sint C) ?S \<and>
         gDoneTransferring ?sf \<and> outstanding ?sf = [] \<and>
         gBytesTransferred ?sf = gBytesToTransfer ?s4"
    using assms(3,4) S
    by (intro run_from_write [OF C, where n = 0 and es = errs and e = noErr and p = "gDataBuffer s"])
       (simp_all add: toolbox_def st)
  then show ?thesis
    by (simp add: toolbox_def read_sizes_append write_sizes_append sum_expected_chunks [OF C S])
qed

theorem chunking_correct_witness:
  "0 <s (4096 :: long) \<and>
   0 \<le>s gBytesToTransfer (state_after (example_toolbox 10000) 4096 ''http://host/f'' 7 14 initial_world) \<and>
   outstanding (state_after (example_toolbox 10000) 4096 ''http://host/f'' 7 14 initial_world) = [] \<and>
   map sint (read_sizes (calls (completions 4096 [noErr, noErr, noErr, noErr, noErr, noErr]
     (example_transfer 10000)))) = [4096, 4096, 1808] \<and>
   map sint (write_sizes (calls (completions 4096 [noErr, noErr, noErr, noErr, noErr, noErr]
     (example_transfer 10000)))) = [4096, 4096, 1808] \<and>
   gBytesTransferred (completions 4096 [noErr, noErr, noErr, noErr, noErr, noErr]
     (example_transfer 10000)) = 10000 \<and>
   gDoneTransferring (completions 4096 [noErr, noErr, noErr, noErr, noErr, noErr]
     (example_transfer 10000))"
proof -
  let ?s = "state_after (example_toolbox 10000) 4096 ''http://host/f'' 7 14 initial_world"
  have ff: "first_failure (example_toolbox 10000) ''http://host/f'' = None"
    by (simp add: first_failure_def setup_steps_def example_toolbox_def noErr_def)
  have ex: "example_transfer 10000 = start_transfer 4096 ?s"
    by (simp add: example_transfer_def copy_success [OF ff])
  have s: "gBytesToTransfer ?s = 10000" "outstanding ?s = []"
    "read_sizes (calls ?s) = []" "write_sizes (calls ?s) = []"
    by (simp_all add: state_after_def example_toolbox_def initial_world_def setup_calls_def)
  have h: "0 <s (4096 :: long)" "0 \<le>s gBytesToTransfer ?s"
    by (simp_all add: s word_sless_alt word_sle_eq)
  have n: "2 * length (expected_chunks (sint (4096 :: long)) (sint (gBytesToTransfer ?s))) \<le>
             length [noErr, noErr, noErr, noErr, noErr, noErr :: OSErr]"
    by (simp add: s expected_chunks_def)
  from chunking_correct [OF h s(2) n] show ?thesis
    using h by (simp add: ex s expected_chunks_def numeral_2_eq_2)
qed

text \<open>
  Claim C4. Under the same conditions, after the counters are reset and the bootstrap call is
  made, and after any number of completion callbacks, \<open>gBytesTransferred\<close> is not
  negative and not above \<open>gBytesToTransfer\<close> (which does not change), and the next
  completion callback does not decrease it.
\<close>
theorem transferred_bounded_monotone:
  assumes "0 <s C" and "0 \<le>s gBytesToTransfer s" and "outstanding s = []"
  shows "gBytesTransferred (start_transfer C s) = 0 \<and>
         0 \<le>s gBytesTransferred (completions C errs (start_transfer C s)) \<and>
         gBytesTransferred (completions C errs (start_transfer C s)) \<le>s
           gBytesToTransfer (completions C errs (start_transfer C s)) \<and>
         gBytesToTransfer (completions C errs (start_transfer C s)) = gBytesToTransfer s \<and>
         gBytesTransferred (completions C errs (start_transfer C s)) \<le>s
           gBytesTransferred (next_completion C e (completions C errs (start_transfer C s)))"
proof -
  have C: "0 < sint C" using assms(1) by (simp add: word_sless_alt)
  note inv = inv_run [OF assms, of errs]
  show ?thesis
    using inv_start(3) [OF assms] inv inv_next(3) [OF C inv(1), of e]
    by (simp add: transfer_inv_def word_sle_eq)
qed

theorem transferred_bounded_monotone_witness:
  "0 <s (4096 :: long) \<and>
   0 \<le>s gBytesToTransfer (initial_world\<lparr>gBytesToTransfer := 10000\<rparr>) \<and>
   outstanding (initial_world\<lparr>gBytesToTransfer := 10000\<rparr>) = [] \<and>
   gBytesTransferred (completions 4096 [noErr]
     (start_transfer 4096 (initial_world\<lparr>gBytesToTransfer := 10000\<rparr>))) \<le>s
   gBytesTransferred (next_completion 4096 noErr (completions 4096 [noErr]
     (start_transfer 4096 (initial_world\<lparr>gBytesToTransfer := 10000\<rparr>)))) \<and>
   gBytesTransferred (next_completion 4096 noErr (completions 4096 [noErr]
     (start_transfer 4096 (initial_world\<lparr>gBytesToTransfer := 10000\<rparr>)))) = 4096"
proof -
  have "gBytesTransferred (next_completion 4096 noErr (completions 4096 [noErr]
     (start_transfer 4096 (initial_world\<lparr>gBytesToTransfer := 10000\<rparr>)))) = 4096"
    by (simp add: initial_world_def start_transfer_def Let_def toolbox_def schedule_def
          QTFileTrans_WriteDataCompletionProc_def QTFileTrans_ReadDataCompletionProc_def
          next_completion_def word_sless_alt)
  then show ?thesis
    using transferred_bounded_monotone [of 4096 "initial_world\<lparr>gBytesToTransfer := 10000\<rparr>"
          "[noErr]" noErr]
    by (simp add: initial_world_def word_sless_alt word_sle_eq)
qed

text \<open>
  Claim C7. Under the same conditions, after any number of completion callbacks
  \<open>gDoneTransferring\<close> holds exactly if \<open>gBytesTransferred\<close> has reached
  \<open>gBytesToTransfer\<close>; in particular it is false while fewer bytes have been
  transferred. Once true it stays true under any further callbacks, and neither completion
  routine ever sets it back to false, in any state.
\<close>
theorem done_flag_tracks_transfer:
  assumes "0 <s C" and "0 \<le>s gBytesToTransfer s" and "outstanding s = []"
  shows "(gDoneTransferring (completions C errs (start_transfer C s)) \<longleftrightarrow>
            gBytesTransferred (completions C errs (start_transfer C s)) =
            gBytesToTransfer (completions C errs (start_transfer C s))) \<and>
         (gBytesTransferred (completions C errs (start_transfer C s)) <s
            gBytesToTransfer (completions C errs (start_transfer C s)) \<longrightarrow>
          \<not> gDoneTransferring (completions C errs (start_transfer C s))) \<and>
         (gDoneTransferring (completions C errs (start_transfer C s)) \<longrightarrow>
          gDoneTransferring (completions C (errs @ errs') (start_transfer C s))) \<and>
         (gDoneTransferring s' \<longrightarrow>
          gDoneTransferring (QTFileTrans_ReadDataCompletionProc p n e s') \<and>
          gDoneTransferring (QTFileTrans_WriteDataCompletionProc C p n e s'))"
proof -
  note inv = inv_run [OF assms, of errs]
  have eq: "gDoneTransferring (completions C errs (start_transfer C s)) \<longleftrightarrow>
           gBytesTransferred (completions C errs (start_transfer C s)) =
           gBytesToTransfer (completions C errs (start_transfer C s))"
    using inv(1) by (auto simp: transfer_inv_def)
  have "\<not> gDoneTransferring (completions C errs (start_transfer C s))"
    if "gBytesTransferred (completions C errs (start_transfer C s)) <s
           gBytesToTransfer (completions C errs (start_transfer C s))"
    using that eq by (auto simp: word_sless_alt)
  moreover have "gDoneTransferring (completions C (errs @ errs') (start_transfer C s))"
    if "gDoneTransferring (completions C errs (start_transfer C s))"
    using that by (simp add: completions_append done_completions)
  ultimately show ?thesis
    using eq by (simp add: done_read done_write)
qed

theorem done_flag_tracks_transfer_witness:
  "0 <s (4096 :: long) \<and>
   0 \<le>s gBytesToTransfer (initial_world\<lparr>gBytesToTransfer := 5000\<rparr>) \<and>
   outstanding (initial_world\<lparr>gBytesToTransfer := 5000\<rparr>) = [] \<and>
   gBytesTransferred (completions 4096 [noErr, noErr]
     (start_transfer 4096 (initial_world\<lparr>gBytesToTransfer := 5000\<rparr>))) <s
   gBytesToTransfer (completions 4096 [noErr, noErr]
     (start_transfer 4096 (initial_world\<lparr>gBytesToTransfer := 5000\<rparr>))) \<and>
   \<not> gDoneTransferring (completions 4096 [noErr, noErr]
     (start_transfer 4096 (initial_world\<lparr>gBytesToTransfer := 5000\<rparr>))) \<and>
   gDoneTransferring (completions 4096 [noErr, noErr, noErr, noErr]
     (start_transfer 4096 (initial_world\<lparr>gBytesToTransfer := 5000\<rparr>))) \<and>
   gDoneTransferring (completions 4096 ([noErr, noErr, noErr, noErr] @ [noErr, noErr])
     (start_transfer 4096 (initial_world\<lparr>gBytesToTransfer := 5000\<rparr>))) \<and>
   gDoneTransferring (initial_world\<lparr>gDoneTransferring := True\<rparr>) \<and>
   gDoneTransferring (QTFileTrans_WriteDataCompletionProc 4096 NULL 7 noErr
     (initial_world\<lparr>gDoneTransferring := True\<rparr>))"
proof -
  let ?w = "initial_world\<lparr>gBytesToTransfer := 5000\<rparr>"
  have h: "0 <s (4096 :: long)" "0 \<le>s gBytesToTransfer ?w" "outstanding ?w = []"
    by (simp_all add: initial_world_def word_sless_alt word_sle_eq)
  have lt: "gBytesTransferred (completions 4096 [noErr, noErr] (start_transfer 4096 ?w)) <s
            gBytesToTransfer (completions 4096 [noErr, noErr] (start_transfer 4096 ?w))"
    and dn: "gDoneTransferring (completions 4096 [noErr, noErr, noErr, noErr] (start_transfer 4096 ?w))"
    by (simp_all add: initial_world_def start_transfer_def Let_def toolbox_def schedule_def
          QTFileTrans_WriteDataCompletionProc_def QTFileTrans_ReadDataCompletionProc_def
          next_completion_def word_sless_alt)
  from done_flag_tracks_transfer [OF h, of "[noErr, noErr]"] lt
  have "\<not> gDoneTransferring (completions 4096 [noErr, noErr] (start_transfer 4096 ?w))"
    by blast
  moreover from done_flag_tracks_transfer [OF h, of "[noErr, noErr, noErr, noErr]" "[noErr, noErr]"] dn
  have "gDoneTransferring (completions 4096 ([noErr, noErr, noErr, noErr] @ [noErr, noErr])
          (start_transfer 4096 ?w))"
    by blast
  moreover from done_flag_tracks_transfer [OF h, of _ _ "initial_world\<lparr>gDoneTransferring := True\<rparr>"
                  NULL 7 noErr]
  have "gDoneTransferring (QTFileTrans_WriteDataCompletionProc 4096 NULL 7 noErr
          (initial_world\<lparr>gDoneTransferring := True\<rparr>))"
    by simp
  ultimately show ?thesis using h lt dn by simp
qed

text \<open>
  Claim C5. When \<open>gBytesToTransfer\<close> is 0, the bootstrap call
  \<open>QTFileTrans_WriteDataCompletionProc(gDataBuffer, 0, noErr)\<close>, made with the count of
  transferred bytes at 0, changes nothing but \<open>gDoneTransferring\<close>, which it sets; and
  lines 220-228 as a whole end with the flag set, no read and no write issued, and no
  request outstanding that was not outstanding before.
\<close>
theorem zero_length_transfer:
  assumes "gBytesToTransfer s = 0"
  shows "(gBytesTransferred s = 0 \<longrightarrow>
            QTFileTrans_WriteDataCompletionProc C (gDataBuffer s) 0 noErr s =
              s\<lparr>gDoneTransferring := True\<rparr>) \<and>
         gDoneTransferring (start_transfer C s) \<and>
         outstanding (start_transfer C s) = outstanding s \<and>
         read_sizes (calls (start_transfer C s)) = read_sizes (calls s) \<and>
         write_sizes (calls (start_transfer C s)) = write_sizes (calls s)"
  using assms
  by (simp add: start_transfer_zero toolbox_def read_sizes_append write_sizes_append
        QTFileTrans_WriteDataCompletionProc_def)

theorem zero_length_transfer_witness:
  "gBytesToTransfer initial_world = 0 \<and> gBytesTransferred initial_world = 0 \<and>
   QTFileTrans_WriteDataCompletionProc 4096 (gDataBuffer initial_world) 0 noErr initial_world =
     initial_world\<lparr>gDoneTransferring := True\<rparr> \<and>
   gDoneTransferring (start_transfer 4096 initial_world) \<and>
   read_sizes (calls (start_transfer 4096 initial_world)) = [] \<and>
   write_sizes (calls (start_transfer 4096 initial_world)) = []"
  using zero_length_transfer [of initial_world 4096]
  by (simp add: initial_world_def)

text \<open>
  Claim C6. For all error codes \<open>e1\<close> and \<open>e2\<close>, every byte count and every
  state, either completion routine called with \<open>e1\<close> yields the same state (globals,
  calls made, requests outstanding) as called with \<open>e2\<close>; so does a completion delivered
  by a data handler.
\<close>
theorem error_code_has_no_influence:
  "QTFileTrans_ReadDataCompletionProc p n e1 s = QTFileTrans_ReadDataCompletionProc p n e2 s \<and>
   QTFileTrans_WriteDataCompletionProc C p n e1 s = QTFileTrans_WriteDataCompletionProc C p n e2 s \<and>
   next_completion C e1 s = next_completion C e2 s"
  by (simp add: QTFileTrans_ReadDataCompletionProc_def QTFileTrans_WriteDataCompletionProc_def
        next_completion_def completion_error_ignored [of C _ e1 _ e2] split: list.splits)

text \<open>
  Claim C9. The completion routines are told only the tag (\<open>theRefCon\<close>) of the request,
  never the number of bytes that the data handler delivered. A read that the write completion
  routine issues has its size as its tag. The read completion routine schedules a write whose
  size and tag are the tag it was called with, and the write completion routine adds the tag it
  was called with to \<open>gBytesTransferred\<close>. So when a read with tag \<open>rc\<close> is
  outstanding, its completion schedules a write of \<open>rc\<close> bytes and the completion of that
  write adds \<open>rc\<close> to \<open>gBytesTransferred\<close>, whatever was delivered.
\<close>
theorem write_length_is_the_tag:
  assumes "gWriteDataHCompletionUPP s = Some WriteDataCompletionProc"
    and "outstanding s = [DataHReadAsync dh p m w (Some ReadDataCompletionProc) rc]"
  shows "(gBytesTransferred s' + n <s gBytesToTransfer s' \<longrightarrow>
            (\<exists>k. outstanding (QTFileTrans_WriteDataCompletionProc C p' n e s') =
                   outstanding s' @
                   [DataHReadAsync (gDataReader s') p' k \<lparr>hi = 0, lo = gBytesTransferred s' + n\<rparr>
                      (gReadDataHCompletionUPP s') k])) \<and>
         write_sizes (calls (QTFileTrans_ReadDataCompletionProc p' n e s')) =
           write_sizes (calls s') @ [n] \<and>
         gBytesTransferred (QTFileTrans_WriteDataCompletionProc C p' n e s') =
           gBytesTransferred s' + n \<and>
         calls (next_completion C e1 s) =
           calls s @ [DataHWrite (gDataWriter s) p (gBytesTransferred s) rc
                        (Some WriteDataCompletionProc) rc] \<and>
         gBytesTransferred (next_completion C e1 s) = gBytesTransferred s \<and>
         gBytesTransferred (next_completion C e2 (next_completion C e1 s)) =
           gBytesTransferred s + rc"
  using assms
  by (simp add: next_completion_def QTFileTrans_ReadDataCompletionProc_def schedule_def
        QTFileTrans_WriteDataCompletionProc_def Let_def write_sizes_append)

theorem write_length_is_the_tag_witness:
  "gWriteDataHCompletionUPP (start_transfer 4096 (initial_world\<lparr>gBytesToTransfer := 10000\<rparr>)) =
     Some WriteDataCompletionProc \<and>
   outstanding (start_transfer 4096 (initial_world\<lparr>gBytesToTransfer := 10000\<rparr>)) =
     [DataHReadAsync NULL NULL 4096 \<lparr>hi = 0, lo = 0\<rparr> (Some ReadDataCompletionProc) 4096] \<and>
   gBytesTransferred (next_completion 4096 noErr (next_completion 4096 noErr
     (start_transfer 4096 (initial_world\<lparr>gBytesToTransfer := 10000\<rparr>)))) = 4096 \<and>
   gBytesTransferred (initial_world\<lparr>gBytesToTransfer := 10000\<rparr>) + 0 <s
     gBytesToTransfer (initial_world\<lparr>gBytesToTransfer := 10000\<rparr>) \<and>
   (\<exists>k. outstanding (QTFileTrans_WriteDataCompletionProc 4096 NULL 0 noErr
                        (initial_world\<lparr>gBytesToTransfer := 10000\<rparr>)) =
          [DataHReadAsync NULL NULL k \<lparr>hi = 0, lo = 0\<rparr> None k])"
proof -
  let ?w = "initial_world\<lparr>gBytesToTransfer := 10000\<rparr>"
  let ?s = "start_transfer 4096 ?w"
  have u: "gWriteDataHCompletionUPP ?s = Some WriteDataCompletionProc"
    and out: "outstanding ?s =
      [DataHReadAsync NULL NULL 4096 \<lparr>hi = 0, lo = 0\<rparr> (Some ReadDataCompletionProc) 4096]"
    and t: "gBytesTransferred ?s = 0"
    by (simp_all add: initial_world_def start_transfer_def Let_def toolbox_def schedule_def
          QTFileTrans_WriteDataCompletionProc_def word_sless_alt)
  have lt: "gBytesTransferred ?w + 0 <s gBytesToTransfer ?w"
    by (simp add: initial_world_def word_sless_alt)
  note inst = write_length_is_the_tag [OF u out, of ?w 0 4096 NULL noErr noErr noErr]
  from inst lt have "\<exists>k. outstanding (QTFileTrans_WriteDataCompletionProc 4096 NULL 0 noErr ?w) =
      outstanding ?w @ [DataHReadAsync (gDataReader ?w) NULL k \<lparr>hi = 0, lo = gBytesTransferred ?w + 0\<rparr>
                          (gReadDataHCompletionUPP ?w) k]"
    by blast
  then have "\<exists>k. outstanding (QTFileTrans_WriteDataCompletionProc 4096 NULL 0 noErr ?w) =
      [DataHReadAsync NULL NULL k \<lparr>hi = 0, lo = 0\<rparr> None k]"
    by (simp add: initial_world_def)
  moreover from inst t
  have "gBytesTransferred (next_completion 4096 noErr (next_completion 4096 noErr ?s)) = 4096"
    by simp
  ultimately show ?thesis using u out lt by blast
qed

subsection \<open>Setup and teardown\<close>

text \<open>
  Claim C2 fails on the code where \<open>OpenComponent\<close> returns \<open>NULL\<close> (lines 163-169):
  \<open>myErr\<close> is \<open>noErr\<close> there, so the function returns \<open>noErr\<close> and does not call
  teardown. When it is the second \<open>OpenComponent\<close> that fails, the first data handler
  stays open. (For every other failing step, \<open>setup_failure_tears_down\<close> above shows
  what the claim says.)
\<close>
theorem open_component_failure_returns_noErr:
  "QTFileTrans_CopyRemoteFileToLocalFile ((example_toolbox 10000)\<lparr>OpenComponent_writer := NULL\<rparr>)
     4096 ''http://host/f'' 7 initial_world =
   (noErr,
    initial_world\<lparr>gDataReader := 1,
      calls := [NewHandleClear 14, BlockMove ''http://host/f'' 100 14, FSpDelete 7, NewHandleClear 4,
                FSpCreate 7, QTNewAlias 7, OpenComponent 100, OpenComponent 300]\<rparr>) \<and>
   QTFileTrans_CopyRemoteFileToLocalFile ((example_toolbox 10000)\<lparr>OpenComponent_reader := NULL\<rparr>)
     4096 ''http://host/f'' 7 initial_world =
   (noErr,
    initial_world\<lparr>
      calls := [NewHandleClear 14, BlockMove ''http://host/f'' 100 14, FSpDelete 7, NewHandleClear 4,
                FSpCreate 7, QTNewAlias 7, OpenComponent 100]\<rparr>)"
proof -
  have w: "first_failure ((example_toolbox 10000)\<lparr>OpenComponent_writer := NULL\<rparr>) ''http://host/f'' =
             Some DataHandlerOpenWrite"
    and r: "first_failure ((example_toolbox 10000)\<lparr>OpenComponent_reader := NULL\<rparr>) ''http://host/f'' =
             Some DataHandlerOpenRead"
    by (simp_all add: first_failure_def setup_steps_def example_toolbox_def noErr_def)
  show ?thesis
    unfolding copy_failure [OF w] copy_failure [OF r]
    by (simp add: state_after_def setup_calls_def example_toolbox_def initial_world_def noErr_def)
qed

text \<open>
  Claim C3 fails on the code. Teardown before anything was opened or allocated does nothing.
  But after a transfer (here of an empty file, done at once), two calls of teardown in a row
  dispose of the buffer twice and of each routine descriptor twice: the code sets
  \<open>gDataReader\<close> and \<open>gDataWriter\<close> to \<open>NULL\<close> after closing them and does not do so
  for \<open>gDataBuffer\<close> and the descriptors.
\<close>
theorem teardown_twice_disposes_twice:
  "QTFileTrans_CloseDownHandlers initial_world = initial_world \<and>
   gDoneTransferring (example_transfer 0) \<and>
   calls (QTFileTrans_CloseDownHandlers (QTFileTrans_CloseDownHandlers (example_transfer 0))) =
     calls (example_transfer 0) @
     [DataHCloseForRead 1, CloseComponent 1, DataHCloseForWrite 2, CloseComponent 2,
      DisposePtr 500,
      DisposeDataHCompletionUPP (Some ReadDataCompletionProc),
      DisposeDataHCompletionUPP (Some WriteDataCompletionProc),
      DisposePtr 500,
      DisposeDataHCompletionUPP (Some ReadDataCompletionProc),
      DisposeDataHCompletionUPP (Some WriteDataCompletionProc)]"
proof -
  have ff: "first_failure (example_toolbox 0) ''http://host/f'' = None"
    by (simp add: first_failure_def setup_steps_def example_toolbox_def noErr_def)
  have s: "example_transfer 0 = start_transfer 4096
             (state_after (example_toolbox 0) 4096 ''http://host/f'' 7 14 initial_world)"
    by (simp add: example_transfer_def copy_success [OF ff])
  have g: "gDoneTransferring (example_transfer 0)" "gDataReader (example_transfer 0) = 1"
    "gDataWriter (example_transfer 0) = 2" "gDataBuffer (example_transfer 0) = 500"
    "gReadDataHCompletionUPP (example_transfer 0) = Some ReadDataCompletionProc"
    "gWriteDataHCompletionUPP (example_transfer 0) = Some WriteDataCompletionProc"
    unfolding s
    by (simp_all add: start_transfer_def Let_def toolbox_def QTFileTrans_WriteDataCompletionProc_def
          schedule_def state_after_def example_toolbox_def initial_world_def)
  have "QTFileTrans_CloseDownHandlers initial_world = initial_world"
    by (simp add: QTFileTrans_CloseDownHandlers_def initial_world_def)
  then show ?thesis
    using g by (simp add: teardown_log teardown_globals teardown_calls_def)
qed

text \<open>
  Claim C8. Of the calls that a call of \<open>QTFileTrans_CopyRemoteFileToLocalFile\<close>
  makes, those that concern the destination file are, in this order, \<open>FSpDelete\<close>,
  \<open>FSpCreate\<close> and \<open>DataHOpenForWrite\<close>, or the first ones of these if a step fails
  on the way; all three are made if no step fails. What \<open>FSpDelete\<close> returns (\<open>noErr\<close>
  when there was a file, \<open>fnfErr\<close> when there was none, or anything else) has no effect on
  the result or on the state: the only thing the function could learn about an earlier file
  is discarded. If \<open>FSpCreate\<close> fails, as it does when an earlier file is still in place,
  nothing is opened for writing, no read is issued, nothing is left outstanding and the
  function returns an error. Conversely, whenever something is opened for writing, it is the
  data handler opened on the alias of the file just created: \<open>FSpCreate\<close> and
  \<open>QTNewAlias\<close> returned \<open>noErr\<close> and the fourteen setup calls were made in program
  order. The function itself never writes, and it issues a read only if no step failed.
\<close>
theorem destination_replaced_before_writing:
  "prefix (filter destination_call (drop (length (calls s))
             (calls (snd (QTFileTrans_CopyRemoteFileToLocalFile tb C theURL fsp s)))))
     [FSpDelete fsp, FSpCreate fsp, DataHOpenForWrite (OpenComponent_writer tb)] \<and>
   (first_failure tb theURL = None \<longrightarrow>
      filter destination_call (drop (length (calls s))
             (calls (snd (QTFileTrans_CopyRemoteFileToLocalFile tb C theURL fsp s)))) =
        [FSpDelete fsp, FSpCreate fsp, DataHOpenForWrite (OpenComponent_writer tb)]) \<and>
   QTFileTrans_CopyRemoteFileToLocalFile (tb\<lparr>FSpDelete_result := d\<rparr>) C theURL fsp s =
     QTFileTrans_CopyRemoteFileToLocalFile tb C theURL fsp s \<and>
   (FSpCreate_result tb \<noteq> noErr \<longrightarrow>
      DataHOpenForWrite dh \<notin> set (drop (length (calls s))
             (calls (snd (QTFileTrans_CopyRemoteFileToLocalFile tb C theURL fsp s)))) \<and>
      fst (QTFileTrans_CopyRemoteFileToLocalFile tb C theURL fsp s) \<noteq> noErr \<and>
      read_sizes (drop (length (calls s))
             (calls (snd (QTFileTrans_CopyRemoteFileToLocalFile tb C theURL fsp s)))) = [] \<and>
      outstanding (snd (QTFileTrans_CopyRemoteFileToLocalFile tb C theURL fsp s)) = outstanding s) \<and>
   (DataHOpenForWrite dh \<in> set (drop (length (calls s))
             (calls (snd (QTFileTrans_CopyRemoteFileToLocalFile tb C theURL fsp s)))) \<longrightarrow>
      dh = OpenComponent_writer tb \<and> FSpCreate_result tb = noErr \<and> QTNewAlias_result tb = noErr \<and>
      take 14 (drop (length (calls s))
             (calls (snd (QTFileTrans_CopyRemoteFileToLocalFile tb C theURL fsp s)))) =
        setup_calls tb C theURL fsp) \<and>
   write_sizes (drop (length (calls s))
             (calls (snd (QTFileTrans_CopyRemoteFileToLocalFile tb C theURL fsp s)))) = [] \<and>
   (read_sizes (drop (length (calls s))
             (calls (snd (QTFileTrans_CopyRemoteFileToLocalFile tb C theURL fsp s)))) \<noteq> [] \<longrightarrow>
      first_failure tb theURL = None)"
proof -
  let ?r = "QTFileTrans_CopyRemoteFileToLocalFile tb C theURL fsp s"
  let ?N = "drop (length (calls s)) (calls (snd ?r))"
  let ?k = "case first_failure tb theURL of None \<Rightarrow> 14 | Some st \<Rightarrow> calls_made st"
  obtain xs where N: "?N = take ?k (setup_calls tb C theURL fsp) @ xs"
    and xs: "filter destination_call xs = []" "write_sizes xs = []"
      "first_failure tb theURL \<noteq> None \<longrightarrow> read_sizes xs = []"
    using copy_new_calls [of s tb C theURL fsp] by blast
  have len: "length (setup_calls tb C theURL fsp) = 14"
    by (simp add: setup_calls_def)
  have order: "prefix (filter destination_call ?N)
     [FSpDelete fsp, FSpCreate fsp, DataHOpenForWrite (OpenComponent_writer tb)]"
  proof (cases "first_failure tb theURL")
    case None
    then show ?thesis unfolding N by (simp add: xs setup_calls_def)
  next
    case (Some st)
    then show ?thesis
      unfolding N using destination_calls_take [of st tb C theURL fsp] by (simp add: xs)
  qed
  have all: "filter destination_call ?N =
        [FSpDelete fsp, FSpCreate fsp, DataHOpenForWrite (OpenComponent_writer tb)]"
    if "first_failure tb theURL = None"
    unfolding N using that by (simp add: xs setup_calls_def)
  have indep: "QTFileTrans_CopyRemoteFileToLocalFile (tb\<lparr>FSpDelete_result := d\<rparr>) C theURL fsp s = ?r"
    by (simp add: QTFileTrans_CopyRemoteFileToLocalFile_def delete_result_unused)
  have w: "write_sizes ?N = []"
    unfolding N by (simp add: write_sizes_append xs setup_calls_no_io)
  have rd: "first_failure tb theURL = None" if "read_sizes ?N \<noteq> []"
    using that xs(3) unfolding N by (auto simp: read_sizes_append setup_calls_no_io)
  have opened: "dh = OpenComponent_writer tb \<and> FSpCreate_result tb = noErr \<and>
      QTNewAlias_result tb = noErr \<and> take 14 ?N = setup_calls tb C theURL fsp"
    if "DataHOpenForWrite dh \<in> set ?N"
  proof -
    from that have mem: "DataHOpenForWrite dh \<in> set (take ?k (setup_calls tb C theURL fsp))"
      unfolding N using destination_call_not_in [OF xs(1)] by simp
    have "(first_failure tb theURL = None \<or> first_failure tb theURL = Some OpenForWrite) \<and>
          dh = OpenComponent_writer tb"
    proof (cases "first_failure tb theURL")
      case None
      then show ?thesis using mem open_for_write_in_setup by simp
    next
      case (Some st)
      then show ?thesis using mem open_for_write_in_take [of dh st] by simp
    qed
    moreover from this have "?k = 14" by auto
    ultimately show ?thesis
      using steps_before_open_for_write [of tb theURL] unfolding N by (simp add: len)
  qed
  have failed: "DataHOpenForWrite dh \<notin> set ?N \<and> fst ?r \<noteq> noErr \<and> read_sizes ?N = [] \<and>
      outstanding (snd ?r) = outstanding s"
    if c: "FSpCreate_result tb \<noteq> noErr"
  proof -
    obtain st where st: "first_failure tb theURL = Some st"
      and early: "st \<in> {URLSize, URLHandleAllocation, AliasHandleAllocation, DestinationCreate}"
      using create_failure_first [OF c] by blast
    have ne: "st \<noteq> DataHandlerOpenRead" "st \<noteq> DataHandlerOpenWrite" using early by auto
    have "fst ?r \<noteq> noErr"
      using failure_code_OSErr [OF st] early by (auto simp add: copy_failure [OF st])
    moreover have "read_sizes ?N = []"
      using rd st by auto
    moreover have "outstanding (snd ?r) = outstanding s"
      by (rule setup_failure_tears_down(2) [OF st ne])
    moreover have "DataHOpenForWrite dh \<notin> set ?N"
      using opened c by blast
    ultimately show ?thesis by simp
  qed
  show ?thesis
    using order all indep failed opened w rd by blast
qed

theorem destination_replaced_before_writing_witness:
  "first_failure (example_toolbox 10000) ''http://host/f'' = None \<and>
   DataHOpenForWrite 2 \<in> set (calls (example_transfer 10000)) \<and>
   read_sizes (calls (example_transfer 10000)) \<noteq> [] \<and>
   filter destination_call (calls (example_transfer 10000)) =
     [FSpDelete 7, FSpCreate 7, DataHOpenForWrite 2] \<and>
   take 14 (calls (example_transfer 10000)) =
     setup_calls (example_toolbox 10000) 4096 ''http://host/f'' 7 \<and>
   FSpCreate_result ((example_toolbox 10000)\<lparr>FSpDelete_result := - 47, FSpCreate_result := - 48\<rparr>)
     \<noteq> noErr \<and>
   DataHOpenForWrite 2 \<notin> set (calls (snd (QTFileTrans_CopyRemoteFileToLocalFile
     ((example_toolbox 10000)\<lparr>FSpDelete_result := - 47, FSpCreate_result := - 48\<rparr>)
     4096 ''http://host/f'' 7 initial_world))) \<and>
   fst (QTFileTrans_CopyRemoteFileToLocalFile
     ((example_toolbox 10000)\<lparr>FSpDelete_result := - 47, FSpCreate_result := - 48\<rparr>)
     4096 ''http://host/f'' 7 initial_world) \<noteq> noErr"
proof -
  let ?tb = "example_toolbox 10000"
  let ?busy = "(example_toolbox 10000)\<lparr>FSpDelete_result := - 47, FSpCreate_result := - 48\<rparr>"
  let ?u = "''http://host/f''"
  have c0: "drop (length (calls initial_world)) xs = xs" for xs :: "toolbox_call list"
    by (simp add: initial_world_def)
  have ff: "first_failure ?tb ?u = None"
    by (simp add: first_failure_def setup_steps_def example_toolbox_def noErr_def)
  have w: "OpenComponent_writer ?tb = 2"
    by (simp add: example_toolbox_def)
  have ex: "example_transfer 10000 = start_transfer 4096 (state_after ?tb 4096 ?u 7 14 initial_world)"
    by (simp add: example_transfer_def copy_success [OF ff])
  have mem: "DataHOpenForWrite 2 \<in> set (calls (example_transfer 10000))"
    and rd: "read_sizes (calls (example_transfer 10000)) \<noteq> []"
    unfolding ex
    by (simp_all add: start_transfer_def Let_def toolbox_def QTFileTrans_WriteDataCompletionProc_def
          schedule_def state_after_def setup_calls_def example_toolbox_def initial_world_def
          word_sless_alt read_sizes_append)
  have busy: "FSpCreate_result ?busy \<noteq> noErr"
    by (simp add: noErr_def)
  note ok = destination_replaced_before_writing [of initial_world ?tb 4096 ?u 7 _ 2,
      unfolded c0, folded example_transfer_def]
  note ko = destination_replaced_before_writing [of initial_world ?busy 4096 ?u 7 _ 2, unfolded c0]
  from ok ff mem w
  have "filter destination_call (calls (example_transfer 10000)) =
          [FSpDelete 7, FSpCreate 7, DataHOpenForWrite 2]"
    and "take 14 (calls (example_transfer 10000)) = setup_calls ?tb 4096 ?u 7"
    by simp_all
  moreover from ko busy
  have "DataHOpenForWrite 2 \<notin> set (calls (snd (QTFileTrans_CopyRemoteFileToLocalFile ?busy 4096 ?u 7 initial_world)))"
    and "fst (QTFileTrans_CopyRemoteFileToLocalFile ?busy 4096 ?u 7 initial_world) \<noteq> noErr"
    by blast+
  ultimately show ?thesis
    using ff mem rd busy by blast
qed

text \<open>
  Claim C10. After \<open>QTFileTrans_CloseDownHandlers\<close> both \<open>gDataReader\<close> and
  \<open>gDataWriter\<close> are \<open>NULL\<close>, so that the driving step, which is guarded on them,
  does nothing; \<open>gDataBuffer\<close> and the two routine descriptors keep their values: if
  one of them was not \<open>NULL\<close>, it has been disposed of by this call and is still not
  \<open>NULL\<close>.
\<close>
theorem teardown_leaves_dangling_pointers:
  "gDataReader (QTFileTrans_CloseDownHandlers s) = NULL \<and>
   gDataWriter (QTFileTrans_CloseDownHandlers s) = NULL \<and>
   give_time C e1 e2 (QTFileTrans_CloseDownHandlers s) = QTFileTrans_CloseDownHandlers s \<and>
   gDataBuffer (QTFileTrans_CloseDownHandlers s) = gDataBuffer s \<and>
   gReadDataHCompletionUPP (QTFileTrans_CloseDownHandlers s) = gReadDataHCompletionUPP s \<and>
   gWriteDataHCompletionUPP (QTFileTrans_CloseDownHandlers s) = gWriteDataHCompletionUPP s \<and>
   (gDataBuffer s \<noteq> NULL \<longrightarrow>
      DisposePtr (gDataBuffer s) \<in> set (drop (length (calls s)) (calls (QTFileTrans_CloseDownHandlers s))) \<and>
      gDataBuffer (QTFileTrans_CloseDownHandlers s) \<noteq> NULL) \<and>
   (gReadDataHCompletionUPP s \<noteq> None \<longrightarrow>
      DisposeDataHCompletionUPP (gReadDataHCompletionUPP s) \<in>
        set (drop (length (calls s)) (calls (QTFileTrans_CloseDownHandlers s))) \<and>
      gReadDataHCompletionUPP (QTFileTrans_CloseDownHandlers s) \<noteq> None) \<and>
   (gWriteDataHCompletionUPP s \<noteq> None \<longrightarrow>
      DisposeDataHCompletionUPP (gWriteDataHCompletionUPP s) \<in>
        set (drop (length (calls s)) (calls (QTFileTrans_CloseDownHandlers s))) \<and>
      gWriteDataHCompletionUPP (QTFileTrans_CloseDownHandlers s) \<noteq> None)"
  by (simp add: teardown_globals teardown_log teardown_calls_def give_time_def)

theorem teardown_leaves_dangling_pointers_witness:
  "gDataBuffer (example_transfer 0) \<noteq> NULL \<and>
   gReadDataHCompletionUPP (example_transfer 0) \<noteq> None \<and>
   gWriteDataHCompletionUPP (example_transfer 0) \<noteq> None \<and>
   gDataReader (QTFileTrans_CloseDownHandlers (example_transfer 0)) = NULL \<and>
   gDataBuffer (QTFileTrans_CloseDownHandlers (example_transfer 0)) = 500 \<and>
   gReadDataHCompletionUPP (QTFileTrans_CloseDownHandlers (example_transfer 0)) =
     Some ReadDataCompletionProc \<and>
   gWriteDataHCompletionUPP (QTFileTrans_CloseDownHandlers (example_transfer 0)) =
     Some WriteDataCompletionProc \<and>
   DisposePtr 500 \<in> set (calls (QTFileTrans_CloseDownHandlers (example_transfer 0))) \<and>
   DisposeDataHCompletionUPP (Some ReadDataCompletionProc) \<in>
     set (calls (QTFileTrans_CloseDownHandlers (example_transfer 0))) \<and>
   DisposeDataHCompletionUPP (Some WriteDataCompletionProc) \<in>
     set (calls (QTFileTrans_CloseDownHandlers (example_transfer 0)))"
proof -
  let ?s = "example_transfer 0"
  have ff: "first_failure (example_toolbox 0) ''http://host/f'' = None"
    by (simp add: first_failure_def setup_steps_def example_toolbox_def noErr_def)
  have s: "?s = start_transfer 4096
             (state_after (example_toolbox 0) 4096 ''http://host/f'' 7 14 initial_world)"
    by (simp add: example_transfer_def copy_success [OF ff])
  have g: "gDataBuffer ?s = 500"
    "gReadDataHCompletionUPP ?s = Some ReadDataCompletionProc"
    "gWriteDataHCompletionUPP ?s = Some WriteDataCompletionProc"
    unfolding s
    by (simp_all add: start_transfer_def Let_def toolbox_def QTFileTrans_WriteDataCompletionProc_def
          schedule_def state_after_def example_toolbox_def initial_world_def)
  from teardown_leaves_dangling_pointers [of ?s] g
  have "gDataReader (QTFileTrans_CloseDownHandlers ?s) = NULL"
    and "gDataBuffer (QTFileTrans_CloseDownHandlers ?s) = 500"
    and "gReadDataHCompletionUPP (QTFileTrans_CloseDownHandlers ?s) = Some ReadDataCompletionProc"
    and "gWriteDataHCompletionUPP (QTFileTrans_CloseDownHandlers ?s) = Some WriteDataCompletionProc"
    and "DisposePtr 500 \<in> set (drop (length (calls ?s)) (calls (QTFileTrans_CloseDownHandlers ?s)))"
    and "DisposeDataHCompletionUPP (Some ReadDataCompletionProc) \<in>
           set (drop (length (calls ?s)) (calls (QTFileTrans_CloseDownHandlers ?s)))"
    and "DisposeDataHCompletionUPP (Some WriteDataCompletionProc) \<in>
           set (drop (length (calls ?s)) (calls (QTFileTrans_CloseDownHandlers ?s)))"
    by simp_all
  then show ?thesis using g by (auto dest: in_set_dropD)
qed

end
